theory Spec2Isabelle
  imports Complex_Main "HOL-Library.Multiset"
begin

section \<open>Dither and palette math (src/utils/dither.ts)\<close>

text \<open>
  JavaScript numbers are modelled as follows. Loop counters, pixel coordinates, surface
  sizes and colour channels, which the code only ever fills with non-negative integers,
  are \<open>nat\<close>. The arithmetic of the luminance test and of the display size is that of
  IEEE 754 binary64, the type \<open>double\<close> below: every operation rounds its exact result to
  the nearest double, ties to even. The value of the dither matrix is computed exactly
  (the division by 16 and the product with 255 are exact in binary64) and is a \<open>real\<close>.
  A result of \<open>parseInt\<close> is a \<open>nat option\<close>, where \<open>None\<close> stands for \<open>NaN\<close>.
\<close>

subsection \<open>Numbers\<close>

text \<open>
  A Number is a finite double, given by its value, an infinity or \<open>NaN\<close>. The sign of a
  zero is left out: the operations used here (sum, difference, product, quotient by a
  positive divisor, comparison, \<open>Math.min\<close>, \<open>Math.floor\<close>) give the same for both zeros.
\<close>

datatype double = Finite real | PosInf | NegInf | NaN

text \<open>The number of binary digits of a positive integer.\<close>

function bitLength :: "int \<Rightarrow> int" where
  "bitLength n = (if 0 < n then bitLength (n div 2) + 1 else 0)"
  by pat_completeness auto
termination
  by (relation "measure nat") auto

text \<open>The binary exponent of \<open>a > 0\<close>: the \<open>e\<close> with \<open>2^e \<le> a < 2^(e+1)\<close>.\<close>

definition exponentOf :: "real \<Rightarrow> int" where
  "exponentOf a = (if 1 \<le> a then bitLength \<lfloor>a\<rfloor> - 1 else - bitLength (\<lceil>1 / a\<rceil> - 1))"

definition pow2 :: "int \<Rightarrow> real" where
  "pow2 e = (if 0 \<le> e then 2 ^ nat e else 1 / 2 ^ nat (- e))"

definition roundTiesToEven :: "real \<Rightarrow> int" where
  "roundTiesToEven z =
     (let f = \<lfloor>z\<rfloor>;
          d = z - of_int f
      in if d < 1 / 2 then f else if 1 / 2 < d then f + 1 else if even f then f else f + 1)"

text \<open>
  The Number nearest to a real \<open>x\<close>: what a decimal literal, an integer or the exact
  result of an operation becomes. The significand has 53 binary digits, so the unit in
  the last place of \<open>a = |x|\<close> is \<open>2^(e - 52)\<close> for the exponent \<open>e\<close> of \<open>a\<close>, and not less
  than \<open>2^(-1074)\<close>; \<open>a\<close> is rounded to a multiple \<open>m\<close> of that unit; and a result from
  \<open>2^1024\<close> on is an infinity.
\<close>

definition ulpOf :: "real \<Rightarrow> real" where
  "ulpOf a = pow2 (max (exponentOf a) (- 1022) - 52)"

definition roundToUlp :: "real \<Rightarrow> real \<Rightarrow> real" where
  "roundToUlp a ulp = of_int (roundTiesToEven (a / ulp)) * ulp"

definition packDouble :: "real \<Rightarrow> real \<Rightarrow> double" where
  "packDouble x m =
     (if 2 ^ 1024 \<le> m then (if 0 < x then PosInf else NegInf)
      else Finite (if 0 < x then m else - m))"

definition num :: "real \<Rightarrow> double" where
  "num x = (if x = 0 then Finite 0 else packDouble x (roundToUlp \<bar>x\<bar> (ulpOf \<bar>x\<bar>)))"

text \<open>\<open>a + b\<close>, \<open>- a\<close>, \<open>a - b\<close>, \<open>a * b\<close> and \<open>a / b\<close>\<close>

fun fadd :: "double \<Rightarrow> double \<Rightarrow> double" where
  "fadd (Finite x) (Finite y) = num (x + y)"
| "fadd NaN _ = NaN"
| "fadd _ NaN = NaN"
| "fadd PosInf NegInf = NaN"
| "fadd NegInf PosInf = NaN"
| "fadd PosInf _ = PosInf"
| "fadd NegInf _ = NegInf"
| "fadd _ PosInf = PosInf"
| "fadd _ NegInf = NegInf"

fun fneg :: "double \<Rightarrow> double" where
  "fneg (Finite x) = Finite (- x)"
| "fneg PosInf = NegInf"
| "fneg NegInf = PosInf"
| "fneg NaN = NaN"

definition fsub :: "double \<Rightarrow> double \<Rightarrow> double" where
  "fsub a b = fadd a (fneg b)"

fun fmul :: "double \<Rightarrow> double \<Rightarrow> double" where
  "fmul (Finite x) (Finite y) = num (x * y)"
| "fmul NaN _ = NaN"
| "fmul _ NaN = NaN"
| "fmul (Finite x) PosInf = (if x = 0 then NaN else if 0 < x then PosInf else NegInf)"
| "fmul (Finite x) NegInf = (if x = 0 then NaN else if 0 < x then NegInf else PosInf)"
| "fmul PosInf (Finite y) = (if y = 0 then NaN else if 0 < y then PosInf else NegInf)"
| "fmul NegInf (Finite y) = (if y = 0 then NaN else if 0 < y then NegInf else PosInf)"
| "fmul PosInf PosInf = PosInf"
| "fmul NegInf NegInf = PosInf"
| "fmul PosInf NegInf = NegInf"
| "fmul NegInf PosInf = NegInf"

fun fdiv :: "double \<Rightarrow> double \<Rightarrow> double" where
  "fdiv (Finite x) (Finite y) =
     (if y = 0 then (if x = 0 then NaN else if 0 < x then PosInf else NegInf)
      else num (x / y))"
| "fdiv NaN _ = NaN"
| "fdiv _ NaN = NaN"
| "fdiv (Finite x) _ = Finite 0"
| "fdiv PosInf (Finite y) = (if 0 \<le> y then PosInf else NegInf)"
| "fdiv NegInf (Finite y) = (if 0 \<le> y then NegInf else PosInf)"
| "fdiv _ _ = NaN"

text \<open>\<open>a > b\<close> and \<open>a <= b\<close>: false as soon as one side is \<open>NaN\<close>.\<close>

fun fgt :: "double \<Rightarrow> double \<Rightarrow> bool" where
  "fgt (Finite x) (Finite y) \<longleftrightarrow> y < x"
| "fgt NaN _ \<longleftrightarrow> False"
| "fgt _ NaN \<longleftrightarrow> False"
| "fgt PosInf PosInf \<longleftrightarrow> False"
| "fgt PosInf _ \<longleftrightarrow> True"
| "fgt NegInf _ \<longleftrightarrow> False"
| "fgt (Finite x) PosInf \<longleftrightarrow> False"
| "fgt (Finite x) NegInf \<longleftrightarrow> True"

fun fle :: "double \<Rightarrow> double \<Rightarrow> bool" where
  "fle (Finite x) (Finite y) \<longleftrightarrow> x \<le> y"
| "fle NaN _ \<longleftrightarrow> False"
| "fle _ NaN \<longleftrightarrow> False"
| "fle NegInf _ \<longleftrightarrow> True"
| "fle _ PosInf \<longleftrightarrow> True"
| "fle PosInf _ \<longleftrightarrow> False"
| "fle (Finite x) NegInf \<longleftrightarrow> False"

text \<open>\<open>Math.min(a, b)\<close> and \<open>Math.floor(a)\<close>\<close>

fun fmin :: "double \<Rightarrow> double \<Rightarrow> double" where
  "fmin (Finite x) (Finite y) = Finite (min x y)"
| "fmin NaN _ = NaN"
| "fmin _ NaN = NaN"
| "fmin NegInf _ = NegInf"
| "fmin _ NegInf = NegInf"
| "fmin PosInf b = b"
| "fmin a PosInf = a"

fun ffloor :: "double \<Rightarrow> double" where
  "ffloor (Finite x) = Finite (of_int \<lfloor>x\<rfloor>)"
| "ffloor a = a"

text \<open>
  A Number as a size in pixels: the integer itself when the Number is a non-negative
  integer, as every size that the code computes is.
\<close>

fun toLength :: "double \<Rightarrow> nat" where
  "toLength (Finite x) = nat \<lfloor>x\<rfloor>"
| "toLength _ = 0"

definition bayerMatrix4x4 :: "nat list list" where
  "bayerMatrix4x4 =
     [[0, 8, 2, 10],
      [12, 4, 14, 6],
      [3, 11, 1, 9],
      [15, 7, 13, 5]]"

definition getBayerValue :: "nat \<Rightarrow> nat \<Rightarrow> real" where
  "getBayerValue x y =
     (let matrixSize = 4;
          v = bayerMatrix4x4 ! (y mod matrixSize) ! (x mod matrixSize)
      in (real v / 16) * 255)"

text \<open>One full tile of the dither pattern, row by row.\<close>

definition bayerTile :: "real list" where
  "bayerTile = concat (map (\<lambda>y. map (\<lambda>x. getBayerValue x y) [0..<4]) [0..<4])"

subsection \<open>Hex colours\<close>

record Rgb =
  r :: "nat option"
  g :: "nat option"
  b :: "nat option"

text \<open>
  The character class \<open>[a-f\d]\<close> under the \<open>i\<close> flag: a decimal digit, or one of the
  letters a to f in either case.
\<close>

definition hexClass :: "char \<Rightarrow> bool" where
  "hexClass c \<longleftrightarrow>
     (let n = of_char c :: nat
      in (48 \<le> n \<and> n \<le> 57) \<or> (97 \<le> n \<and> n \<le> 102) \<or> (65 \<le> n \<and> n \<le> 70))"

text \<open>One capture group \<open>([a-f\d]{2})\<close>: the two characters matched and the rest.\<close>

fun hexGroup :: "string \<Rightarrow> (string \<times> string) option" where
  "hexGroup (c1 # c2 # rest) =
     (if hexClass c1 \<and> hexClass c2 then Some ([c1, c2], rest) else None)"
| "hexGroup _ = None"

text \<open>
  The regular expression \<open>/^#?([a-f\d]{2})([a-f\d]{2})([a-f\d]{2})$/i\<close>, run from the
  start of the string. The greedy \<open>#?\<close> takes a leading \<open>#\<close>; when the string starts
  with \<open>#\<close> and the rest fails, the retry without it fails as well, since \<open>#\<close> is not
  in the class of the first group. The result holds the three captures.
\<close>

definition hexExec :: "string \<Rightarrow> (string \<times> string \<times> string) option" where
  "hexExec hex =
     (let body = (case hex of c # rest \<Rightarrow> if c = CHR ''#'' then rest else hex | [] \<Rightarrow> hex)
      in case hexGroup body of
           None \<Rightarrow> None
         | Some (g1, rest1) \<Rightarrow>
             (case hexGroup rest1 of
                None \<Rightarrow> None
              | Some (g2, rest2) \<Rightarrow>
                  (case hexGroup rest2 of
                     None \<Rightarrow> None
                   | Some (g3, rest3) \<Rightarrow> if rest3 = [] then Some (g1, g2, g3) else None)))"

text \<open>The value of one digit in radix 16, as \<open>parseInt\<close> reads it.\<close>

definition digit16 :: "char \<Rightarrow> nat option" where
  "digit16 c =
     (let n = of_char c :: nat
      in if 48 \<le> n \<and> n \<le> 57 then Some (n - 48)
         else if 97 \<le> n \<and> n \<le> 102 then Some (n - 87)
         else if 65 \<le> n \<and> n \<le> 70 then Some (n - 55)
         else None)"

text \<open>
  \<open>parseInt(s, 16)\<close> on a string without leading white space, sign or \<open>0x\<close> prefix
  (a capture of \<open>hexExec\<close> has none): the digits up to the first character that is not
  one are read, and no digit at all gives \<open>NaN\<close>.
\<close>

fun parseDigits16 :: "nat \<Rightarrow> string \<Rightarrow> nat" where
  "parseDigits16 acc [] = acc"
| "parseDigits16 acc (c # cs) =
     (case digit16 c of None \<Rightarrow> acc | Some d \<Rightarrow> parseDigits16 (acc * 16 + d) cs)"

definition parseInt16 :: "string \<Rightarrow> nat option" where
  "parseInt16 s =
     (case s of
        [] \<Rightarrow> None
      | c # cs \<Rightarrow> (case digit16 c of None \<Rightarrow> None | Some d \<Rightarrow> Some (parseDigits16 0 s)))"

definition hexToRgb :: "string \<Rightarrow> Rgb" where
  "hexToRgb hex =
     (case hexExec hex of
        Some (g1, g2, g3) \<Rightarrow> \<lparr>r = parseInt16 g1, g = parseInt16 g2, b = parseInt16 g3\<rparr>
      | None \<Rightarrow> \<lparr>r = Some 0, g = Some 0, b = Some 0\<rparr>)"

subsection \<open>The wording of the specification for hex colours\<close>

text \<open>A hex digit and its integer value, and a string of exactly six hex digits.\<close>

definition isHexDigit :: "char \<Rightarrow> bool" where
  "isHexDigit c \<longleftrightarrow> c \<in> set ''0123456789abcdefABCDEF''"

definition hexDigitValue :: "char \<Rightarrow> nat" where
  "hexDigitValue c =
     (if c \<in> set ''0123456789'' then of_char c - of_char CHR ''0''
      else if c \<in> set ''abcdef'' then of_char c - of_char CHR ''a'' + 10
      else of_char c - of_char CHR ''A'' + 10)"

definition sixHexDigits :: "string \<Rightarrow> bool" where
  "sixHexDigits s \<longleftrightarrow> length s = 6 \<and> list_all isHexDigit s"

definition hexPairValue :: "string \<Rightarrow> nat \<Rightarrow> nat" where
  "hexPairValue s k = 16 * hexDigitValue (s ! (2 * k)) + hexDigitValue (s ! (2 * k + 1))"

text \<open>The string that is left once an optional leading \<open>#\<close> is taken away.\<close>

definition hexBody :: "string \<Rightarrow> string" where
  "hexBody hex = (case hex of c # rest \<Rightarrow> if c = CHR ''#'' then rest else hex | [] \<Rightarrow> hex)"

section \<open>The frame processor (src/components/RetroCanvas.tsx)\<close>

subsection \<open>Settings and files (src/types.ts)\<close>

text \<open>
  \<open>threshold\<close>, \<open>ditherAmount\<close> and \<open>contrast\<close> are the Numbers that enter the luminance
  test. \<open>pixelSize\<close> is the value of the slider that divides the display size.
\<close>

record RetroSettings =
  pixelSize :: real
  threshold :: double
  ditherAmount :: double
  contrast :: double
  colorDark :: string
  colorLight :: string
  invert :: bool
  gridLine :: bool

datatype FileType = Image | Video

text \<open>The field \<open>type\<close> of an uploaded file may be \<open>null\<close>.\<close>

record UploadedFile =
  url :: string
  fileType :: "FileType option"
  name :: string

text \<open>\<open>file?.type\<close>, for a file that may be \<open>null\<close>.\<close>

definition typeOf :: "UploadedFile option \<Rightarrow> FileType option" where
  "typeOf file = (case file of None \<Rightarrow> None | Some f \<Rightarrow> fileType f)"

subsection \<open>The pixel loop\<close>

text \<open>
  The buffer \<open>data\<close> is a \<open>Uint8ClampedArray\<close>, a list of bytes here. A store converts
  the number: \<open>NaN\<close> becomes 0 and a value above 255 becomes 255. A store beyond the end
  is ignored, which is what \<open>list_update\<close> does.
\<close>

definition toUint8Clamped :: "nat option \<Rightarrow> nat" where
  "toUint8Clamped v = (case v of None \<Rightarrow> 0 | Some n \<Rightarrow> min n 255)"

text \<open>\<open>data[i]\<close>: \<open>undefined\<close> beyond the end of the buffer, \<open>None\<close> here.\<close>

definition readByte :: "nat list \<Rightarrow> nat \<Rightarrow> nat option" where
  "readByte data i = (if i < length data then Some (data ! i) else None)"

text \<open>
  Steps 1 to 4 of the loop body: luminance, contrast, dither offset, threshold. A channel
  that is \<open>undefined\<close> makes \<open>luma\<close> \<open>NaN\<close>, and a comparison with \<open>NaN\<close> is false.
\<close>

definition isLight ::
  "RetroSettings \<Rightarrow> nat \<Rightarrow> nat \<Rightarrow> nat option \<Rightarrow> nat option \<Rightarrow> nat option \<Rightarrow> bool" where
  "isLight settings x y rv gv bv =
     (case (rv, gv, bv) of
        (Some rn, Some gn, Some bn) \<Rightarrow>
          (let luma = fadd (fadd (fmul (num 0.299) (num (real rn)))
                                 (fmul (num 0.587) (num (real gn))))
                           (fmul (num 0.114) (num (real bn)));
               luma = fadd (fmul (fsub luma (num 128)) (contrast settings)) (num 128);
               ditherVal = num (getBayerValue x y);
               ditherOffset = fmul (fsub ditherVal (num 128)) (ditherAmount settings)
           in fgt (fadd luma ditherOffset) (threshold settings))
      | _ \<Rightarrow> False)"

text \<open>The body of the inner loop, for the pixel in column \<open>x\<close> of row \<open>y\<close>.\<close>

definition processPixel ::
  "RetroSettings \<Rightarrow> Rgb \<Rightarrow> Rgb \<Rightarrow> nat \<Rightarrow> nat \<Rightarrow> nat \<Rightarrow> nat list \<Rightarrow> nat list" where
  "processPixel settings dark light procW y x data =
     (let i = (y * procW + x) * 4;
          rv = readByte data i;
          gv = readByte data (i + 1);
          bv = readByte data (i + 2);
          finalColor = (if isLight settings x y rv gv bv then light else dark)
      in data[i := toUint8Clamped (r finalColor),
              i + 1 := toUint8Clamped (g finalColor),
              i + 2 := toUint8Clamped (b finalColor),
              i + 3 := 255])"

text \<open>\<open>for (let x = 0; x < procW; x++)\<close>, entered with the counter at \<open>x\<close>.\<close>

function columnLoop ::
  "RetroSettings \<Rightarrow> Rgb \<Rightarrow> Rgb \<Rightarrow> nat \<Rightarrow> nat \<Rightarrow> nat \<Rightarrow> nat list \<Rightarrow> nat list" where
  "columnLoop settings dark light procW y x data =
     (if x < procW
      then columnLoop settings dark light procW y (x + 1)
             (processPixel settings dark light procW y x data)
      else data)"
  by pat_completeness auto
termination
  by (relation "measure (\<lambda>(settings, dark, light, procW, y, x, data). procW - x)") auto

text \<open>\<open>for (let y = 0; y < procH; y++)\<close>, entered with the counter at \<open>y\<close>.\<close>

function rowLoop ::
  "RetroSettings \<Rightarrow> Rgb \<Rightarrow> Rgb \<Rightarrow> nat \<Rightarrow> nat \<Rightarrow> nat \<Rightarrow> nat list \<Rightarrow> nat list" where
  "rowLoop settings dark light procW procH y data =
     (if y < procH
      then rowLoop settings dark light procW procH (y + 1)
             (columnLoop settings dark light procW y 0 data)
      else data)"
  by pat_completeness auto
termination
  by (relation "measure (\<lambda>(settings, dark, light, procW, procH, y, data). procH - y)") auto

text \<open>The palette after the swap for \<open>invert\<close>.\<close>

definition effectiveDark :: "RetroSettings \<Rightarrow> Rgb" where
  "effectiveDark settings =
     (let rgbDark = hexToRgb (colorDark settings);
          rgbLight = hexToRgb (colorLight settings)
      in if invert settings then rgbLight else rgbDark)"

definition effectiveLight :: "RetroSettings \<Rightarrow> Rgb" where
  "effectiveLight settings =
     (let rgbDark = hexToRgb (colorDark settings);
          rgbLight = hexToRgb (colorLight settings)
      in if invert settings then rgbDark else rgbLight)"

text \<open>Colour parsing, the swap and the two loops: the buffer after the last iteration.\<close>

definition processPixels :: "RetroSettings \<Rightarrow> nat \<Rightarrow> nat \<Rightarrow> nat list \<Rightarrow> nat list" where
  "processPixels settings procW procH data =
     (let dark = effectiveDark settings;
          light = effectiveLight settings
      in rowLoop settings dark light procW procH 0 data)"

text \<open>
  The classification of the pixels of a frame, in the order in which the loops visit
  them, each from the channels that \<open>getImageData\<close> delivered for it, and the number
  of pixels found light.
\<close>

definition classification :: "RetroSettings \<Rightarrow> nat \<Rightarrow> nat \<Rightarrow> nat list \<Rightarrow> bool list" where
  "classification settings procW procH data =
     concat (map (\<lambda>y. map (\<lambda>x.
        (let i = (y * procW + x) * 4
         in isLight settings x y (readByte data i) (readByte data (i + 1))
              (readByte data (i + 2))))
        [0..<procW]) [0..<procH])"

definition lightCount :: "RetroSettings \<Rightarrow> nat \<Rightarrow> nat \<Rightarrow> nat list \<Rightarrow> nat" where
  "lightCount settings procW procH data =
     length (filter (\<lambda>l. l) (classification settings procW procH data))"

subsection \<open>One pass of \<open>processFrame\<close>\<close>

text \<open>
  What a pass reads from the page: whether \<open>canvasRef.current\<close> is there and its
  \<open>getContext\<close> gives a context, the canvas size, the client size of the container,
  the intrinsic sizes of the video and image elements (\<open>None\<close> for a ref that is
  \<open>null\<close>), whether the offscreen canvas gives a context, and \<open>readPixels\<close>: the
  bytes that \<open>getImageData\<close> delivers after the source was drawn at the given width
  and height, \<open>None\<close> when \<open>getImageData\<close> throws.
\<close>

record Dom =
  canvasMounted :: bool
  containerSize :: "(nat \<times> nat) option"
  canvasContext :: bool
  canvasSize :: "nat \<times> nat"
  videoSize :: "(nat \<times> nat) option"
  imageSize :: "(nat \<times> nat) option"
  offscreenContext :: bool
  readPixels :: "nat \<Rightarrow> nat \<Rightarrow> nat list option"

text \<open>What a pass does to the context of the display canvas.\<close>

datatype DrawOp =
    ImageSmoothingEnabled bool
  | DrawImage "nat list" nat nat nat nat
  | GlobalCompositeOperation string
  | FillStyle string
  | FillRect nat nat nat nat

text \<open>
  What a pass leaves behind: a new canvas size, if it set one; the operations on the
  display context, where \<open>DrawImage px pw ph dw dh\<close> draws the offscreen canvas of
  \<open>pw\<close> by \<open>ph\<close> pixels \<open>px\<close> scaled to \<open>dw\<close> by \<open>dh\<close>; whether it called
  \<open>requestAnimationFrame(processFrame)\<close>; and whether it ended in an exception.
\<close>

record Outcome =
  resized :: "(nat \<times> nat) option"
  drawn :: "DrawOp list"
  scheduled :: bool
  thrown :: bool

definition returned :: Outcome where
  "returned = \<lparr>resized = None, drawn = [], scheduled = False, thrown = False\<rparr>"

text \<open>
  The choice of the source, lines 50 to 70: the pass has asked for another frame and
  returned, or has returned, or goes on with \<open>source\<close> (\<open>null\<close> or not),
  \<open>sourceW\<close> and \<open>sourceH\<close>.
\<close>

datatype Selection = Rescheduled | Returned | Source bool nat nat

definition selectSource :: "UploadedFile option \<Rightarrow> Dom \<Rightarrow> Selection" where
  "selectSource file page =
     (case (typeOf file, videoSize page) of
        (Some Video, Some (videoWidth, videoHeight)) \<Rightarrow>
          if videoWidth = 0 then Rescheduled else Source True videoWidth videoHeight
      | _ \<Rightarrow>
         (case (typeOf file, imageSize page) of
            (Some Image, Some (naturalWidth, naturalHeight)) \<Rightarrow>
              if naturalWidth = 0 then Returned else Source True naturalWidth naturalHeight
          | _ \<Rightarrow> Source False 0 0))"

text \<open>
  The size of the display, lines 75 to 80, for a source with non-zero sizes: the quotients
  and the products are rounded as the code rounds them.
\<close>

definition displaySize :: "nat \<times> nat \<Rightarrow> nat \<Rightarrow> nat \<Rightarrow> nat \<times> nat" where
  "displaySize container sourceW sourceH =
     (let containerW = num (real (fst container));
          containerH = num (real (snd container));
          scale = fmin (fdiv containerW (num (real sourceW)))
                       (fdiv containerH (num (real sourceH)));
          displayW = ffloor (fmul (num (real sourceW)) scale);
          displayH = ffloor (fmul (num (real sourceH)) scale)
      in (toLength displayW, toLength displayH))"

text \<open>
  The size of the processing surface, lines 94 to 96: \<open>procW\<close> as a function of the
  settings and \<open>displayW\<close>, and \<open>procH\<close> as a function of the settings and \<open>displayH\<close>.
\<close>

definition procW_of :: "RetroSettings \<Rightarrow> nat \<Rightarrow> int" where
  "procW_of settings displayW =
     (let factor = max 1 (pixelSize settings)
      in max 1 \<lfloor>real displayW / factor\<rfloor>)"

definition procH_of :: "RetroSettings \<Rightarrow> nat \<Rightarrow> int" where
  "procH_of settings displayH =
     (let factor = max 1 (pixelSize settings)
      in max 1 \<lfloor>real displayH / factor\<rfloor>)"

text \<open>\<open>for (let y = 0; y < displayH; y += 2)\<close>, entered with the counter at \<open>y\<close>.\<close>

function scanlines :: "nat \<Rightarrow> nat \<Rightarrow> nat \<Rightarrow> DrawOp list" where
  "scanlines displayW displayH y =
     (if y < displayH
      then FillRect 0 y displayW 1 # scanlines displayW displayH (y + 2)
      else [])"
  by pat_completeness auto
termination
  by (relation "measure (\<lambda>(displayW, displayH, y). displayH - y)") auto

definition gridOverlay :: "RetroSettings \<Rightarrow> nat \<Rightarrow> nat \<Rightarrow> DrawOp list" where
  "gridOverlay settings displayW displayH =
     (if gridLine settings
      then [GlobalCompositeOperation ''overlay'', FillStyle ''rgba(0,0,0,0.3)'']
           @ scanlines displayW displayH 0
           @ [GlobalCompositeOperation ''source-over'']
      else [])"

text \<open>The pass from line 74 on, once a source with non-zero sizes is there.\<close>

definition pipeline ::
  "UploadedFile option \<Rightarrow> RetroSettings \<Rightarrow> Dom \<Rightarrow> nat \<times> nat \<Rightarrow> nat \<Rightarrow> nat \<Rightarrow> Outcome" where
  "pipeline file settings page container sourceW sourceH =
     (let display = displaySize container sourceW sourceH;
          displayW = fst display;
          displayH = snd display;
          resize = (if fst (canvasSize page) \<noteq> displayW \<or> snd (canvasSize page) \<noteq> displayH
                    then Some (displayW, displayH) else None);
          pw = nat (procW_of settings displayW);
          ph = nat (procH_of settings displayH)
      in if \<not> offscreenContext page then returned\<lparr>resized := resize\<rparr>
         else (case readPixels page pw ph of
                 None \<Rightarrow> returned\<lparr>resized := resize, thrown := True\<rparr>
               | Some data \<Rightarrow>
                   \<lparr>resized = resize,
                    drawn = [ImageSmoothingEnabled False,
                             DrawImage (processPixels settings pw ph data) pw ph displayW displayH]
                            @ gridOverlay settings displayW displayH,
                    scheduled = (typeOf file = Some Video),
                    thrown = False\<rparr>))"

definition processFrame :: "UploadedFile option \<Rightarrow> RetroSettings \<Rightarrow> Dom \<Rightarrow> Outcome" where
  "processFrame file settings page =
     (if \<not> canvasMounted page then returned
      else (case containerSize page of
              None \<Rightarrow> returned
            | Some container \<Rightarrow>
                (if \<not> canvasContext page then returned
                 else (case selectSource file page of
                         Rescheduled \<Rightarrow> returned\<lparr>scheduled := True\<rparr>
                       | Returned \<Rightarrow> returned
                       | Source present sourceW sourceH \<Rightarrow>
                           (if \<not> present \<or> sourceW = 0 \<or> sourceH = 0 then returned
                            else pipeline file settings page container sourceW sourceH)))))"









subsection \<open>The frame loop, lines 182 to 193\<close>

text \<open>
  A \<open>processFrame\<close> is a closure over the \<open>file\<close> and \<open>settings\<close> of the render
  that made it. The view keeps \<open>requestRef.current\<close>; the browser keeps the list of
  frame requests, each a handle with its callback, and hands out handles greater than
  zero that it never gives twice.
\<close>

type_synonym Closure = "UploadedFile option \<times> RetroSettings"

record View =
  mounted :: bool
  rendered :: Closure
  requestRef :: "nat option"
  frameRequests :: "(nat \<times> Closure) list"
  lastHandle :: nat

text \<open>\<open>requestRef.current = requestAnimationFrame(processFrame)\<close>\<close>

definition requestAnimationFrame :: "Closure \<Rightarrow> View \<Rightarrow> View" where
  "requestAnimationFrame callback v =
     (let handle = lastHandle v + 1
      in v\<lparr>requestRef := Some handle,
            frameRequests := frameRequests v @ [(handle, callback)],
            lastHandle := handle\<rparr>)"

definition cancelAnimationFrame :: "nat \<Rightarrow> View \<Rightarrow> View" where
  "cancelAnimationFrame handle v =
     v\<lparr>frameRequests := filter (\<lambda>request. fst request \<noteq> handle) (frameRequests v)\<rparr>"

text \<open>A call of \<open>processFrame\<close>: what it does to the frame requests.\<close>

definition runPass :: "Closure \<Rightarrow> Dom \<Rightarrow> View \<Rightarrow> View" where
  "runPass callback page v =
     (if scheduled (processFrame (fst callback) (snd callback) page)
      then requestAnimationFrame callback v else v)"

text \<open>The effect of lines 182 to 189 and its cleanup of lines 190 to 192.\<close>

definition loopEffect :: "Closure \<Rightarrow> Dom \<Rightarrow> View \<Rightarrow> View" where
  "loopEffect callback page v =
     (if typeOf (fst callback) = Some Video
      then requestAnimationFrame callback v
      else runPass callback page v)"

definition loopCleanup :: "View \<Rightarrow> View" where
  "loopCleanup v =
     (case requestRef v of
        None \<Rightarrow> v
      | Some handle \<Rightarrow> if handle \<noteq> 0 then cancelAnimationFrame handle v else v)"

text \<open>
  What happens to a view: it is mounted with a file and settings, its \<open>requestRef\<close> still
  \<open>undefined\<close>, and the effect runs; the file or the settings change, so that the old
  effect is cleaned up and the new one runs; it is unmounted, and the effect is cleaned
  up; the browser takes one frame request off its list and runs its callback. An event
  that cannot happen in a state gives \<open>None\<close>.
\<close>

datatype Event =
    Mount "UploadedFile option" RetroSettings Dom
  | Update "UploadedFile option" RetroSettings Dom
  | Unmount
  | Frame nat Dom

definition initialView :: "Closure \<Rightarrow> View" where
  "initialView c =
     \<lparr>mounted = False, rendered = c, requestRef = None, frameRequests = [], lastHandle = 0\<rparr>"

fun step :: "Event \<Rightarrow> View \<Rightarrow> View option" where
  "step (Mount file settings page) v =
     (if mounted v then None
      else Some (loopEffect (file, settings) page
                   (v\<lparr>mounted := True, rendered := (file, settings), requestRef := None\<rparr>)))"
| "step (Update file settings page) v =
     (if \<not> mounted v then None
      else Some (loopEffect (file, settings) page
                   ((loopCleanup v)\<lparr>rendered := (file, settings)\<rparr>)))"
| "step Unmount v =
     (if \<not> mounted v then None
      else Some ((loopCleanup v)\<lparr>mounted := False\<rparr>))"
| "step (Frame handle page) v =
     (case map_of (frameRequests v) handle of
        None \<Rightarrow> None
      | Some callback \<Rightarrow>
          Some (runPass callback page
                  (v\<lparr>frameRequests :=
                       filter (\<lambda>request. fst request \<noteq> handle) (frameRequests v)\<rparr>)))"

fun run :: "Event list \<Rightarrow> View \<Rightarrow> View option" where
  "run [] v = Some v"
| "run (e # es) v = (case step e v of None \<Rightarrow> None | Some v' \<Rightarrow> run es v')"

subsection \<open>Notions used in the statements\<close>

text \<open>
  The four bytes of the pixel in column \<open>x\<close> of row \<open>y\<close> of a buffer, and what the loop
  body stores for a pixel whose bytes were \<open>px\<close>.
\<close>

definition pixelAt :: "nat \<Rightarrow> nat list \<Rightarrow> nat \<Rightarrow> nat \<Rightarrow> nat option list" where
  "pixelAt procW data x y =
     (let i = (y * procW + x) * 4 in map (readByte data) [i, i + 1, i + 2, i + 3])"

definition shaded ::
  "RetroSettings \<Rightarrow> Rgb \<Rightarrow> Rgb \<Rightarrow> nat \<Rightarrow> nat \<Rightarrow> nat option list \<Rightarrow> nat option list" where
  "shaded settings dark light x y px =
     (let finalColor = (if isLight settings x y (px ! 0) (px ! 1) (px ! 2) then light else dark)
      in [Some (toUint8Clamped (r finalColor)), Some (toUint8Clamped (g finalColor)),
          Some (toUint8Clamped (b finalColor)), Some 255])"

text \<open>
  Every frame request still in the browser's list belongs to the mounted view, calls the
  \<open>processFrame\<close> of the current render, and has its handle in \<open>requestRef.current\<close>.
\<close>

definition liveRequests :: "View \<Rightarrow> bool" where
  "liveRequests v \<longleftrightarrow>
     (\<forall>request \<in> set (frameRequests v).
        mounted v \<and> snd request = rendered v \<and> requestRef v = Some (fst request) \<and> 0 < fst request)"

subsection \<open>Concrete inputs\<close>

text \<open>
  \<open>DEFAULT_SETTINGS\<close> of the application, a video and an image file, and a page with a
  container of 12 by 6 pixels and a source of 2 by 1 pixels, whose two pixels are a light
  grey and a near black. On \<open>roundingPage\<close> the first pixel is one whose luminance test
  is decided by the rounding. \<open>macSettings\<close> are the default settings with the colours of
  the preset \<open>Mac\<close> and the scanlines on.
\<close>

definition DEFAULT_SETTINGS :: RetroSettings where
  "DEFAULT_SETTINGS =
     \<lparr>pixelSize = 6, threshold = num 110, ditherAmount = num 0.25, contrast = num 1.1,
      colorDark = ''#1a1a14'', colorLight = ''#e6e0d4'', invert = False, gridLine = False\<rparr>"

definition exampleVideo :: "UploadedFile option" where
  "exampleVideo = Some \<lparr>url = ''blob:clip'', fileType = Some Video, name = ''clip.webm''\<rparr>"

definition exampleImage :: "UploadedFile option" where
  "exampleImage = Some \<lparr>url = ''blob:photo'', fileType = Some Image, name = ''photo.png''\<rparr>"

definition roundingPage :: Dom where
  "roundingPage =
     \<lparr>canvasMounted = True, containerSize = Some (12, 6), canvasContext = True,
      canvasSize = (12, 6), videoSize = Some (2, 1), imageSize = Some (2, 1),
      offscreenContext = True,
      readPixels = (\<lambda>w h. Some [209, 117, 95, 7, 10, 10, 10, 8])\<rparr>"


definition examplePage :: Dom where
  "examplePage =
     \<lparr>canvasMounted = True, containerSize = Some (12, 6), canvasContext = True,
      canvasSize = (12, 6), videoSize = Some (2, 1), imageSize = Some (2, 1),
      offscreenContext = True,
      readPixels = (\<lambda>w h. Some [200, 200, 200, 7, 10, 10, 10, 8])\<rparr>"


section \<open>Proofs\<close>

declare columnLoop.simps [simp del] rowLoop.simps [simp del] scanlines.simps [simp del]
  bitLength.simps [simp del]

text \<open>The equations that evaluate the arithmetic of Numbers on numerals.\<close>

lemmas num_defs = num_def packDouble_def roundToUlp_def ulpOf_def exponentOf_def bitLength.simps
  pow2_def roundTiesToEven_def fsub_def

subsection \<open>The dither matrix\<close>

lemma getBayerValue_in_tile: "getBayerValue x y \<in> set bayerTile"
proof -
  have "x mod 4 \<in> {0,1,2,3}" "y mod 4 \<in> {0,1,2,3}" by auto
  then show ?thesis
    by (auto simp: getBayerValue_def bayerMatrix4x4_def bayerTile_def upt_rec)
qed

lemma bayerTile_values:
  "bayerTile = map (\<lambda>v. real v * 255 / 16) [0, 8, 2, 10, 12, 4, 14, 6, 3, 11, 1, 9, 15, 7, 13, 5]"
  by (simp add: bayerTile_def getBayerValue_def bayerMatrix4x4_def upt_rec)

text \<open>
  In binary64 the division and the product of \<open>getBayerValue\<close> round nothing: computed on
  Numbers, as the code does, they give the exact value.
\<close>

lemma sixteenth_binary64:
  assumes "v \<in> {0, 1, 2, 3, 4, 5, 6, 7, 8, 9, 10, 11, 12, 13, 14, 15 :: nat}"
  shows "fmul (fdiv (num (real v)) (num 16)) (num 255) = Finite (real v / 16 * 255)
         \<and> num (real v / 16 * 255) = Finite (real v / 16 * 255)"
  using assms by (elim insertE emptyE; hypsubst; simp add: num_defs)

lemma getBayerValue_binary64:
  "fmul (fdiv (num (real (bayerMatrix4x4 ! (y mod 4) ! (x mod 4)))) (num 16)) (num 255)
     = Finite (getBayerValue x y)
   \<and> num (getBayerValue x y) = Finite (getBayerValue x y)"
proof -
  have "x mod 4 \<in> {0,1,2,3}" "y mod 4 \<in> {0,1,2,3}" by auto
  then have "bayerMatrix4x4 ! (y mod 4) ! (x mod 4)
      \<in> {0, 1, 2, 3, 4, 5, 6, 7, 8, 9, 10, 11, 12, 13, 14, 15}"
    by (auto simp: bayerMatrix4x4_def)
  from sixteenth_binary64 [OF this] show ?thesis
    unfolding getBayerValue_def Let_def .
qed

text \<open>
  Claim C2. For all non-negative integers \<open>x\<close> and \<open>y\<close>, \<open>getBayerValue x y\<close> is
  \<open>M[y mod 4][x mod 4] / 16 * 255\<close> for the row-major matrix \<open>M\<close> of the specification;
  the result lies in \<open>[0, 255)\<close>; and the sixteen results over one tile are the values
  \<open>0, 8, 2, 10, 12, 4, 14, 6, 3, 11, 1, 9, 15, 7, 13, 5\<close> scaled by \<open>255 / 16\<close>, each once.
\<close>

theorem getBayerValue_spec:
  "getBayerValue x y =
     real ([[0, 8, 2, 10], [12, 4, 14, 6], [3, 11, 1, 9], [15, 7, 13, 5]] ! (y mod 4) ! (x mod 4)) / 16 * 255
   \<and> 0 \<le> getBayerValue x y \<and> getBayerValue x y < 255
   \<and> bayerTile = map (\<lambda>v. real v * 255 / 16) [0, 8, 2, 10, 12, 4, 14, 6, 3, 11, 1, 9, 15, 7, 13, 5]
   \<and> distinct bayerTile
   \<and> length bayerTile = 16"
proof -
  have eq: "getBayerValue x y =
     real ([[0, 8, 2, 10], [12, 4, 14, 6], [3, 11, 1, 9], [15, 7, 13, 5]] ! (y mod 4) ! (x mod 4)) / 16 * 255"
    by (simp add: getBayerValue_def bayerMatrix4x4_def)
  have mem: "getBayerValue x y \<in> set bayerTile" by (rule getBayerValue_in_tile)
  have rng: "\<forall>v \<in> set bayerTile. 0 \<le> v \<and> v < 255"
    unfolding bayerTile_values by simp
  have dist: "distinct bayerTile"
    unfolding bayerTile_values by simp
  have len: "length bayerTile = 16"
    unfolding bayerTile_values by simp
  from eq mem rng dist len bayerTile_values show ?thesis by blast
qed

subsection \<open>Hex colours\<close>

text \<open>
  The class of the regular expression is the set of the 22 hex digits, and \<open>parseInt\<close>
  reads a digit of the class as its value.
\<close>

lemma char_eq_code: "(c = d) \<longleftrightarrow> (of_char c :: nat) = of_char d"
  by simp

lemma isHexDigit_code:
  "isHexDigit c \<longleftrightarrow> (of_char c :: nat) \<in> {48,49,50,51,52,53,54,55,56,57,97,98,99,100,101,102,65,66,67,68,69,70}"
  by (simp add: isHexDigit_def char_eq_code)

lemma code_ranges:
  "(48 \<le> (n::nat) \<and> n \<le> 57) \<or> (97 \<le> n \<and> n \<le> 102) \<or> (65 \<le> n \<and> n \<le> 70) \<longleftrightarrow>
   n \<in> {48,49,50,51,52,53,54,55,56,57,97,98,99,100,101,102,65,66,67,68,69,70}"
  by (simp; presburger)

lemma hexClass_iff: "hexClass c \<longleftrightarrow> isHexDigit c"
  unfolding isHexDigit_code hexClass_def Let_def by (rule code_ranges)

lemma digit16_val: "isHexDigit c \<Longrightarrow> digit16 c = Some (hexDigitValue c)"
proof -
  assume "isHexDigit c"
  then have "c \<in> set ''0123456789abcdefABCDEF''" by (simp only: isHexDigit_def)
  then show ?thesis
    unfolding list.set by (elim insertE emptyE) (simp_all add: digit16_def hexDigitValue_def)
qed

lemma digit16_le: "digit16 c = Some d \<Longrightarrow> d < 16"
  by (auto simp: digit16_def Let_def split: if_splits)

lemma hexDigitValue_less: "hexClass c \<Longrightarrow> hexDigitValue c < 16"
  using digit16_le [of c "hexDigitValue c"] by (simp add: hexClass_iff digit16_val)

lemma hexGroup_Some:
  "hexGroup s = Some (grp, rest) \<longleftrightarrow>
     (\<exists>c1 c2. s = c1 # c2 # rest \<and> hexClass c1 \<and> hexClass c2 \<and> grp = [c1, c2])"
  by (cases s rule: hexGroup.cases) auto

lemma hexGroup_None:
  "hexGroup s = None \<longleftrightarrow> \<not> (\<exists>c1 c2 rest. s = c1 # c2 # rest \<and> hexClass c1 \<and> hexClass c2)"
  by (cases s rule: hexGroup.cases) auto

lemma hash_not_hex: "\<not> hexClass CHR ''#''"
  by (simp add: hexClass_def)

lemma hexExec_body:
  "hexExec hex =
     (case hexGroup (hexBody hex) of
           None \<Rightarrow> None
         | Some (g1, rest1) \<Rightarrow>
             (case hexGroup rest1 of
                None \<Rightarrow> None
              | Some (g2, rest2) \<Rightarrow>
                  (case hexGroup rest2 of
                     None \<Rightarrow> None
                   | Some (g3, rest3) \<Rightarrow> if rest3 = [] then Some (g1, g2, g3) else None)))"
  by (simp add: hexExec_def hexBody_def)

lemma hexExec_six:
  assumes "hexClass c1" "hexClass c2" "hexClass c3" "hexClass c4" "hexClass c5" "hexClass c6"
    and "hexBody hex = [c1, c2, c3, c4, c5, c6]"
  shows "hexExec hex = Some ([c1, c2], [c3, c4], [c5, c6])"
  using assms by (simp add: hexExec_body)

lemma hexExec_Some_body:
  assumes "hexExec hex = Some (g1, g2, g3)"
  shows "\<exists>c1 c2 c3 c4 c5 c6. hexBody hex = [c1, c2, c3, c4, c5, c6] \<and>
           hexClass c1 \<and> hexClass c2 \<and> hexClass c3 \<and> hexClass c4 \<and> hexClass c5 \<and> hexClass c6"
proof -
  from assms obtain r1 where 1: "hexGroup (hexBody hex) = Some (g1, r1)"
    by (auto simp: hexExec_body split: option.splits if_splits)
  from assms 1 obtain r2 where 2: "hexGroup r1 = Some (g2, r2)"
    by (auto simp: hexExec_body split: option.splits if_splits)
  from assms 1 2 have 3: "hexGroup r2 = Some (g3, [])"
    by (auto simp: hexExec_body split: option.splits if_splits)
  from 1 2 3 show ?thesis
    unfolding hexGroup_Some by auto
qed

lemma sixHexDigits_list:
  "sixHexDigits s \<longleftrightarrow>
     (\<exists>c1 c2 c3 c4 c5 c6. s = [c1, c2, c3, c4, c5, c6] \<and>
        hexClass c1 \<and> hexClass c2 \<and> hexClass c3 \<and> hexClass c4 \<and> hexClass c5 \<and> hexClass c6)"
proof
  assume "sixHexDigits s"
  then have len: "length s = 6" and all: "list_all isHexDigit s"
    by (simp_all add: sixHexDigits_def)
  from len obtain c1 c2 c3 c4 c5 c6 where s: "s = [c1, c2, c3, c4, c5, c6]"
    by (auto simp: length_Suc_conv numeral_eq_Suc)
  with all show "\<exists>c1 c2 c3 c4 c5 c6. s = [c1, c2, c3, c4, c5, c6] \<and>
        hexClass c1 \<and> hexClass c2 \<and> hexClass c3 \<and> hexClass c4 \<and> hexClass c5 \<and> hexClass c6"
    by (simp add: hexClass_iff)
next
  assume "\<exists>c1 c2 c3 c4 c5 c6. s = [c1, c2, c3, c4, c5, c6] \<and>
        hexClass c1 \<and> hexClass c2 \<and> hexClass c3 \<and> hexClass c4 \<and> hexClass c5 \<and> hexClass c6"
  then show "sixHexDigits s"
    by (auto simp: sixHexDigits_def hexClass_iff)
qed

lemma hexBody_cases: "hex = hexBody hex \<or> hex = CHR ''#'' # hexBody hex"
  by (auto simp: hexBody_def split: list.splits)

lemma hexBody_plain: "sixHexDigits body \<Longrightarrow> hexBody body = body"
  by (auto simp: sixHexDigits_list hexBody_def hash_not_hex)

lemma hexBody_hash: "hexBody (CHR ''#'' # body) = body"
  by (simp add: hexBody_def)

lemma parseInt16_pair:
  "hexClass c1 \<Longrightarrow> hexClass c2 \<Longrightarrow>
     parseInt16 [c1, c2] = Some (16 * hexDigitValue c1 + hexDigitValue c2)"
  by (simp add: parseInt16_def hexClass_iff digit16_val)

text \<open>
  Claim C3. When the string is six hex digits, in either case, after an optional leading
  \<open>#\<close>, \<open>hexToRgb\<close> returns for each channel the integer value of its two digits; for
  every other string it returns \<open>{r: 0, g: 0, b: 0}\<close>. It is a total function: no input
  raises. The three examples of the specification are the last three conjuncts.
\<close>

theorem hexToRgb_spec:
  "(sixHexDigits body \<and> (hex = body \<or> hex = CHR ''#'' # body) \<longrightarrow>
      hexToRgb hex = \<lparr>r = Some (hexPairValue body 0), g = Some (hexPairValue body 1),
                       b = Some (hexPairValue body 2)\<rparr>)
   \<and> ((\<nexists>digits. sixHexDigits digits \<and> (hex = digits \<or> hex = CHR ''#'' # digits)) \<longrightarrow>
      hexToRgb hex = \<lparr>r = Some 0, g = Some 0, b = Some 0\<rparr>)
   \<and> hexToRgb ''#FF0000'' = \<lparr>r = Some 255, g = Some 0, b = Some 0\<rparr>
   \<and> hexToRgb ''00ff00'' = \<lparr>r = Some 0, g = Some 255, b = Some 0\<rparr>
   \<and> hexToRgb ''bad'' = \<lparr>r = Some 0, g = Some 0, b = Some 0\<rparr>"
proof (intro conjI impI)
  assume a: "sixHexDigits body \<and> (hex = body \<or> hex = CHR ''#'' # body)"
  then have hb: "hexBody hex = body"
    using hexBody_plain hexBody_hash by auto
  from a obtain c1 c2 c3 c4 c5 c6 where body: "body = [c1, c2, c3, c4, c5, c6]"
    and cls: "hexClass c1" "hexClass c2" "hexClass c3" "hexClass c4" "hexClass c5" "hexClass c6"
    unfolding sixHexDigits_list by blast
  have "hexExec hex = Some ([c1, c2], [c3, c4], [c5, c6])"
    using cls hb body by (simp add: hexExec_six)
  then show "hexToRgb hex = \<lparr>r = Some (hexPairValue body 0), g = Some (hexPairValue body 1),
                       b = Some (hexPairValue body 2)\<rparr>"
    using cls by (simp add: hexToRgb_def parseInt16_pair hexPairValue_def body)
next
  assume n: "\<nexists>digits. sixHexDigits digits \<and> (hex = digits \<or> hex = CHR ''#'' # digits)"
  have "hexExec hex = None"
  proof (cases "hexExec hex")
    case None
    then show ?thesis .
  next
    case (Some t)
    obtain g1 g2 g3 where "t = (g1, g2, g3)" by (cases t) auto
    with Some have "sixHexDigits (hexBody hex)"
      using hexExec_Some_body [of hex g1 g2 g3] unfolding sixHexDigits_list by simp
    with n hexBody_cases [of hex] show ?thesis by metis
  qed
  then show "hexToRgb hex = \<lparr>r = Some 0, g = Some 0, b = Some 0\<rparr>"
    by (simp add: hexToRgb_def)
next
  show "hexToRgb ''#FF0000'' = \<lparr>r = Some 255, g = Some 0, b = Some 0\<rparr>"
    by (simp add: hexToRgb_def hexExec_def hexClass_def parseInt16_def digit16_def)
next
  show "hexToRgb ''00ff00'' = \<lparr>r = Some 0, g = Some 255, b = Some 0\<rparr>"
    by (simp add: hexToRgb_def hexExec_def hexClass_def parseInt16_def digit16_def)
next
  show "hexToRgb ''bad'' = \<lparr>r = Some 0, g = Some 0, b = Some 0\<rparr>"
    by (simp add: hexToRgb_def hexExec_def hexClass_def parseInt16_def digit16_def)
qed

text \<open>
The theorem at \<open>#1a1a14\<close>, which matches, and at \<open>#12345\<close>, which does not.
\<close>

theorem hexToRgb_spec_witness:
  "sixHexDigits ''1a1a14'' \<and> hexToRgb ''#1a1a14'' = \<lparr>r = Some 26, g = Some 26, b = Some 20\<rparr>
   \<and> (\<nexists>digits. sixHexDigits digits \<and> (''#12345'' = digits \<or> ''#12345'' = CHR ''#'' # digits))
   \<and> hexToRgb ''#12345'' = \<lparr>r = Some 0, g = Some 0, b = Some 0\<rparr>"
proof -
  have six: "sixHexDigits ''1a1a14''"
    by (simp add: sixHexDigits_def isHexDigit_def)
  have no: "\<nexists>digits. sixHexDigits digits \<and> (''#12345'' = digits \<or> ''#12345'' = CHR ''#'' # digits)"
    by (auto simp: sixHexDigits_def isHexDigit_def)
  have v: "hexPairValue ''1a1a14'' 0 = 26" "hexPairValue ''1a1a14'' 1 = 26" "hexPairValue ''1a1a14'' 2 = 20"
    by (simp_all add: hexPairValue_def hexDigitValue_def)
  from six no v hexToRgb_spec [of "''1a1a14''" "''#1a1a14''"] hexToRgb_spec [of "''#12345''" "''#12345''"]
  show ?thesis by simp
qed

text \<open>
Every channel that \<open>hexToRgb\<close> returns is a byte, so that a store keeps it as it is.
\<close>

lemma hexToRgb_channels:
  "\<exists>rv gv bv. hexToRgb hex = \<lparr>r = Some rv, g = Some gv, b = Some bv\<rparr> \<and>
     rv \<le> 255 \<and> gv \<le> 255 \<and> bv \<le> 255"
proof (cases "hexExec hex")
  case None
  then show ?thesis by (simp add: hexToRgb_def)
next
  case (Some t)
  obtain g1 g2 g3 where t: "t = (g1, g2, g3)" by (cases t) auto
  from Some t obtain c1 c2 c3 c4 c5 c6 where body: "hexBody hex = [c1, c2, c3, c4, c5, c6]"
    and cls: "hexClass c1" "hexClass c2" "hexClass c3" "hexClass c4" "hexClass c5" "hexClass c6"
    using hexExec_Some_body [of hex g1 g2 g3] by auto
  have ex: "hexExec hex = Some ([c1, c2], [c3, c4], [c5, c6])"
    using cls body by (rule hexExec_six)
  have "16 * hexDigitValue c1 + hexDigitValue c2 \<le> 255"
       "16 * hexDigitValue c3 + hexDigitValue c4 \<le> 255"
       "16 * hexDigitValue c5 + hexDigitValue c6 \<le> 255"
    using cls [THEN hexDigitValue_less] by simp_all
  then show ?thesis
    using cls by (simp add: hexToRgb_def ex parseInt16_pair)
qed

lemma stored_channel:
  "Some (toUint8Clamped (r (hexToRgb hex))) = r (hexToRgb hex)"
  "Some (toUint8Clamped (g (hexToRgb hex))) = g (hexToRgb hex)"
  "Some (toUint8Clamped (b (hexToRgb hex))) = b (hexToRgb hex)"
  using hexToRgb_channels [of hex] by (auto simp: toUint8Clamped_def)

subsection \<open>The pixel loop\<close>

text \<open>
  An iteration changes the four bytes of its own pixel only, and reads them before it
  writes them; so after the loops each pixel holds what the loop body makes of the bytes
  that \<open>getImageData\<close> delivered for it.
\<close>

lemma length_processPixel [simp]:
  "length (processPixel settings dark light procW y x data) = length data"
  by (simp add: processPixel_def Let_def)

lemma length_columnLoop [simp]:
  "length (columnLoop settings dark light procW y x data) = length data"
  by (induction settings dark light procW y x data rule: columnLoop.induct)
     (subst columnLoop.simps, simp)

lemma length_rowLoop [simp]:
  "length (rowLoop settings dark light procW procH y data) = length data"
  by (induction settings dark light procW procH y data rule: rowLoop.induct)
     (subst rowLoop.simps, simp)

lemma pixel_index_neq:
  assumes "x < procW" "X < procW" "y \<noteq> Y \<or> x \<noteq> X"
  shows "y * procW + x \<noteq> Y * procW + (X::nat)"
proof
  assume eq: "y * procW + x = Y * procW + X"
  have "(y * procW + x) div procW = y" "(y * procW + x) mod procW = x"
    using assms(1) by simp_all
  moreover have "(Y * procW + X) div procW = Y" "(Y * procW + X) mod procW = X"
    using assms(2) by simp_all
  ultimately show False using eq assms(3) by metis
qed

lemma processPixel_other:
  assumes "y * procW + x \<noteq> Y * procW + X"
  shows "pixelAt procW (processPixel settings dark light procW y x data) X Y = pixelAt procW data X Y"
proof -
  define i where "i = (y * procW + x) * 4"
  define j where "j = (Y * procW + X) * 4"
  have far: "i + 4 \<le> j \<or> j + 4 \<le> i" using assms unfolding i_def j_def by arith
  have "\<And>k. k < 4 \<Longrightarrow> readByte (processPixel settings dark light procW y x data) (j + k) = readByte data (j + k)"
    using far unfolding processPixel_def Let_def i_def[symmetric] readByte_def
    by (auto simp: nth_list_update)
  from this[of 0] this[of 1] this[of 2] this[of 3]
  show ?thesis unfolding pixelAt_def Let_def j_def[symmetric] by simp
qed

lemma processPixel_hit:
  assumes "(Y * procW + X) * 4 + 3 < length data"
  shows "pixelAt procW (processPixel settings dark light procW Y X data) X Y =
         shaded settings dark light X Y (pixelAt procW data X Y)"
  using assms unfolding pixelAt_def shaded_def processPixel_def Let_def readByte_def
  by (simp add: nth_list_update)

lemma columnLoop_other_row:
  assumes "y \<noteq> Y" "X < procW"
  shows "pixelAt procW (columnLoop settings dark light procW y x data) X Y = pixelAt procW data X Y"
  using assms
proof (induction settings dark light procW y x data rule: columnLoop.induct)
  case (1 settings dark light procW y x data)
  show ?case
  proof (cases "x < procW")
    case True
    have "y * procW + x \<noteq> Y * procW + X"
      using True "1.prems" by (intro pixel_index_neq) auto
    then show ?thesis
      using True "1.IH" "1.prems"
      by (subst columnLoop.simps) (simp add: processPixel_other)
  next
    case False
    then show ?thesis by (subst columnLoop.simps) simp
  qed
qed

lemma columnLoop_past:
  assumes "X < x" "X < procW"
  shows "pixelAt procW (columnLoop settings dark light procW Y x data) X Y = pixelAt procW data X Y"
  using assms
proof (induction settings dark light procW Y x data rule: columnLoop.induct)
  case (1 settings dark light procW Y x data)
  show ?case
  proof (cases "x < procW")
    case True
    have "Y * procW + x \<noteq> Y * procW + X"
      using "1.prems" by simp
    then show ?thesis
      using True "1.IH" "1.prems"
      by (subst columnLoop.simps) (simp add: processPixel_other)
  next
    case False
    then show ?thesis by (subst columnLoop.simps) simp
  qed
qed

lemma columnLoop_hit:
  assumes "x \<le> X" "X < procW" "(Y * procW + X) * 4 + 3 < length data"
  shows "pixelAt procW (columnLoop settings dark light procW Y x data) X Y =
         shaded settings dark light X Y (pixelAt procW data X Y)"
  using assms
proof (induction settings dark light procW Y x data rule: columnLoop.induct)
  case (1 settings dark light procW Y x data)
  from "1.prems" have lt: "x < procW" by simp
  show ?case
  proof (cases "x = X")
    case True
    have "pixelAt procW (columnLoop settings dark light procW Y (X + 1)
            (processPixel settings dark light procW Y X data)) X Y =
          pixelAt procW (processPixel settings dark light procW Y X data) X Y"
      using "1.prems" by (intro columnLoop_past) auto
    then show ?thesis
      using True lt "1.prems" by (subst columnLoop.simps) (simp add: processPixel_hit)
  next
    case False
    with "1.prems" have "x + 1 \<le> X" by simp
    moreover have "Y * procW + x \<noteq> Y * procW + X" using False by simp
    ultimately show ?thesis
      using lt "1.IH" "1.prems"
      by (subst columnLoop.simps) (simp add: processPixel_other)
  qed
qed

lemma rowLoop_past:
  assumes "Y < y" "X < procW"
  shows "pixelAt procW (rowLoop settings dark light procW procH y data) X Y = pixelAt procW data X Y"
  using assms
proof (induction settings dark light procW procH y data rule: rowLoop.induct)
  case (1 settings dark light procW procH y data)
  show ?case
  proof (cases "y < procH")
    case True
    then show ?thesis
      using "1.IH" "1.prems"
      by (subst rowLoop.simps) (simp add: columnLoop_other_row)
  next
    case False
    then show ?thesis by (subst rowLoop.simps) simp
  qed
qed

lemma rowLoop_hit:
  assumes "y \<le> Y" "Y < procH" "X < procW" "(Y * procW + X) * 4 + 3 < length data"
  shows "pixelAt procW (rowLoop settings dark light procW procH y data) X Y =
         shaded settings dark light X Y (pixelAt procW data X Y)"
  using assms
proof (induction settings dark light procW procH y data rule: rowLoop.induct)
  case (1 settings dark light procW procH y data)
  from "1.prems" have lt: "y < procH" by simp
  show ?case
  proof (cases "y = Y")
    case True
    have "pixelAt procW (rowLoop settings dark light procW procH (Y + 1)
            (columnLoop settings dark light procW Y 0 data)) X Y =
          pixelAt procW (columnLoop settings dark light procW Y 0 data) X Y"
      using "1.prems" by (intro rowLoop_past) auto
    then show ?thesis
      using True lt "1.prems" by (subst rowLoop.simps) (simp add: columnLoop_hit)
  next
    case False
    with "1.prems" have "y + 1 \<le> Y" by simp
    then show ?thesis
      using False lt "1.IH" "1.prems"
      by (subst rowLoop.simps) (simp add: columnLoop_other_row)
  qed
qed

lemma in_buffer:
  assumes "length data = procW * procH * 4" "x < procW" "y < procH"
  shows "(y * procW + x) * 4 + 3 < length (data::nat list)"
proof -
  have "y * procW + x < (y + 1) * procW" using assms(2) by simp
  also have "\<dots> \<le> procH * procW" using assms(3) by (intro mult_le_mono1) simp
  finally have "y * procW + x < procW * procH" by (simp add: mult.commute)
  then show ?thesis using assms(1) by simp
qed

lemma processPixels_pixelAt:
  assumes "length data = procW * procH * 4" "x < procW" "y < procH"
  shows "pixelAt procW (processPixels settings procW procH data) x y =
         shaded settings (effectiveDark settings) (effectiveLight settings) x y (pixelAt procW data x y)"
  unfolding processPixels_def Let_def
  using assms by (intro rowLoop_hit in_buffer) auto

text \<open>The left-hand side of the comparison in line 146, for channels that are there.\<close>

lemma isLight_Some:
  "isLight settings x y (Some rn) (Some gn) (Some bn) \<longleftrightarrow>
     fgt (fadd (fadd (fmul (fsub (fadd (fadd (fmul (num 0.299) (num (real rn)))
                                              (fmul (num 0.587) (num (real gn))))
                                        (fmul (num 0.114) (num (real bn))))
                                  (num 128))
                            (contrast settings))
                      (num 128))
               (fmul (fsub (num (getBayerValue x y)) (num 128)) (ditherAmount settings)))
         (threshold settings)"
  by (simp add: isLight_def Let_def)

lemma isLight_alt:
  "isLight settings x y rv gv bv \<longleftrightarrow>
     (\<exists>rn gn bn. rv = Some rn \<and> gv = Some gn \<and> bv = Some bn \<and>
        fgt (fadd (fadd (fmul (fsub (fadd (fadd (fmul (num 0.299) (num (real rn)))
                                                 (fmul (num 0.587) (num (real gn))))
                                           (fmul (num 0.114) (num (real bn))))
                                     (num 128))
                               (contrast settings))
                         (num 128))
                  (fmul (fsub (num (getBayerValue x y)) (num 128)) (ditherAmount settings)))
            (threshold settings))"
  by (cases rv; cases gv; cases bv) (simp_all add: isLight_def Let_def)

lemma shaded_palette:
  "shaded settings (effectiveDark settings) (effectiveLight settings) x y px =
     (let color = (if isLight settings x y (px ! 0) (px ! 1) (px ! 2)
                   then effectiveLight settings else effectiveDark settings)
      in [r color, g color, b color, Some 255])"
  by (simp add: shaded_def effectiveDark_def effectiveLight_def stored_channel Let_def)

text \<open>
  The classification lists, for each pixel in the order of the loops, the test that decides
  its colour in \<open>processPixels\<close>.
\<close>

lemma concat_rows_length:
  "length (concat (map (\<lambda>y. map (f y) [0..<w]) [0..<h])) = h * w"
  by (induction h) simp_all

lemma concat_rows_nth:
  assumes "x < w" "y < h"
  shows "concat (map (\<lambda>y. map (f y) [0..<w]) [0..<h]) ! (y * w + x) = f y x"
  using assms(2)
proof (induction h)
  case 0
  then show ?case by simp
next
  case (Suc h)
  show ?case
  proof (cases "y < h")
    case True
    then have "y * w + x < h * w"
    proof -
      have "y * w + x < (y + 1) * w" using assms(1) by simp
      also have "\<dots> \<le> h * w" using True by (intro mult_le_mono1) simp
      finally show ?thesis .
    qed
    with Suc.IH [OF True] show ?thesis
      by (simp add: nth_append concat_rows_length)
  next
    case False
    with Suc.prems have "y = h" by simp
    then show ?thesis using assms(1)
      by (simp add: nth_append concat_rows_length)
  qed
qed

lemma classification_nth:
  assumes "x < procW" "y < procH"
  shows "classification settings procW procH data ! (y * procW + x) =
         isLight settings x y (readByte data ((y * procW + x) * 4))
           (readByte data ((y * procW + x) * 4 + 1)) (readByte data ((y * procW + x) * 4 + 2))"
  unfolding classification_def Let_def
  using concat_rows_nth [OF assms, of "\<lambda>y x. isLight settings x y (readByte data ((y * procW + x) * 4))
           (readByte data ((y * procW + x) * 4 + 1)) (readByte data ((y * procW + x) * 4 + 2))"]
  by simp

lemma processPixels_classified:
  assumes "length data = procW * procH * 4" "x < procW" "y < procH"
  shows "pixelAt procW (processPixels settings procW procH data) x y =
         (let color = (if classification settings procW procH data ! (y * procW + x)
                       then effectiveLight settings else effectiveDark settings)
          in [r color, g color, b color, Some 255])"
  unfolding processPixels_pixelAt [OF assms] shaded_palette classification_nth [OF assms(2,3)]
  by (simp add: pixelAt_def Let_def)

text \<open>
A pass that draws has read its pixels and draws the buffer that the loops leave.
\<close>

lemma scanlines_FillRect:
  "op \<in> set (scanlines displayW displayH y) \<Longrightarrow> \<exists>y'. op = FillRect 0 y' displayW 1"
proof (induction displayW displayH y rule: scanlines.induct)
  case (1 displayW displayH y)
  from "1.prems" show ?case
    by (subst (asm) scanlines.simps) (auto split: if_splits dest: "1.IH")
qed

lemma gridOverlay_no_DrawImage:
  "DrawImage out pw ph dw dh \<notin> set (gridOverlay settings displayW displayH)"
  by (auto simp: gridOverlay_def dest: scanlines_FillRect)

lemma pipeline_cases:
  "pipeline file settings page container sourceW sourceH =
     (let display = displaySize container sourceW sourceH;
          resize = (if fst (canvasSize page) \<noteq> fst display \<or> snd (canvasSize page) \<noteq> snd display
                    then Some (fst display, snd display) else None);
          pw = nat (procW_of settings (fst display));
          ph = nat (procH_of settings (snd display))
      in if \<not> offscreenContext page \<or> readPixels page pw ph = None
         then \<lparr>resized = resize, drawn = [], scheduled = False,
               thrown = (offscreenContext page \<and> readPixels page pw ph = None)\<rparr>
         else \<lparr>resized = resize,
               drawn = [ImageSmoothingEnabled False,
                        DrawImage (processPixels settings pw ph (the (readPixels page pw ph))) pw ph
                          (fst display) (snd display)]
                       @ gridOverlay settings (fst display) (snd display),
               scheduled = (typeOf file = Some Video),
               thrown = False\<rparr>)"
  by (simp add: pipeline_def Let_def returned_def split: option.splits)

lemma pipeline_DrawImage:
  assumes "DrawImage out pw ph dw dh \<in> set (drawn (pipeline file settings page container sourceW sourceH))"
  shows "\<exists>data. readPixels page pw ph = Some data \<and> out = processPixels settings pw ph data"
proof -
  define display where "display = displaySize container sourceW sourceH"
  define pw' where "pw' = nat (procW_of settings (fst display))"
  define ph' where "ph' = nat (procH_of settings (snd display))"
  show ?thesis
  proof (cases "\<not> offscreenContext page \<or> readPixels page pw' ph' = None")
    case True
    then have "drawn (pipeline file settings page container sourceW sourceH) = []"
      unfolding pipeline_cases Let_def display_def [symmetric] pw'_def [symmetric] ph'_def [symmetric]
      by simp
    with assms show ?thesis by simp
  next
    case False
    then obtain data where data: "readPixels page pw' ph' = Some data" by auto
    from False have "drawn (pipeline file settings page container sourceW sourceH) =
        [ImageSmoothingEnabled False,
         DrawImage (processPixels settings pw' ph' data) pw' ph' (fst display) (snd display)]
        @ gridOverlay settings (fst display) (snd display)"
      unfolding pipeline_cases Let_def display_def [symmetric] pw'_def [symmetric] ph'_def [symmetric]
      by (simp add: data)
    with assms gridOverlay_no_DrawImage [of out pw ph dw dh settings "fst display" "snd display"]
    have "out = processPixels settings pw' ph' data \<and> pw = pw' \<and> ph = ph'" by simp
    with data show ?thesis by simp
  qed
qed

lemma processFrame_cases:
  "processFrame file settings page = returned \<or>
   processFrame file settings page = returned\<lparr>scheduled := True\<rparr> \<or>
   (\<exists>container sourceW sourceH.
      processFrame file settings page = pipeline file settings page container sourceW sourceH)"
  by (auto simp: processFrame_def split: option.splits Selection.splits)

lemma processFrame_DrawImage:
  assumes "DrawImage out pw ph dw dh \<in> set (drawn (processFrame file settings page))"
  shows "\<exists>data. readPixels page pw ph = Some data \<and> out = processPixels settings pw ph data"
  using processFrame_cases [of "file" settings page] assms
  by (elim disjE exE) (simp_all add: returned_def pipeline_DrawImage)

text \<open>
Evaluation of a pass on the concrete inputs.
\<close>

lemmas example_defs = DEFAULT_SETTINGS_def exampleVideo_def exampleImage_def examplePage_def

lemmas pass_defs = processFrame_def typeOf_def selectSource_def pipeline_def displaySize_def
  num_defs
  procW_of_def procH_of_def gridOverlay_def returned_def

lemmas pixel_defs = processPixels_def rowLoop.simps columnLoop.simps processPixel_def
  effectiveDark_def effectiveLight_def isLight_def readByte_def getBayerValue_def
  bayerMatrix4x4_def hexToRgb_def hexExec_def hexClass_def parseInt16_def digit16_def
  toUint8Clamped_def num_defs


text \<open>
  Claim C1. In every pass that draws, the pixel in column \<open>x\<close> of row \<open>y\<close> of the
  processing surface, with source channels \<open>rv\<close>, \<open>gv\<close>, \<open>bv\<close>, ends as the effective
  light colour if
  \<open>((0.299 rv + 0.587 gv + 0.114 bv - 128) * contrast + 128) + (getBayerValue x y - 128) * ditherAmount\<close>
  is greater than \<open>threshold\<close>, and as the effective dark colour otherwise; its alpha is
  255 whatever the alpha of the source was. The expression is evaluated as the code
  evaluates it: in binary64, operation by operation, from left to right. The effective
  colours are \<open>colorLight\<close> and \<open>colorDark\<close>, swapped when \<open>invert\<close> is set. The buffer has
  the length that \<open>getImageData(0, 0, procW, procH)\<close> gives it.
\<close>

theorem processFrame_pixel:
  assumes "DrawImage out pw ph dw dh \<in> set (drawn (processFrame file settings page))"
    and "readPixels page pw ph = Some data"
    and "length data = pw * ph * 4"
    and "x < pw" and "y < ph"
  shows "(let i = (y * pw + x) * 4;
              rv = num (real (data ! i));
              gv = num (real (data ! (i + 1)));
              bv = num (real (data ! (i + 2)));
              luma = fadd (fadd (fmul (num 0.299) rv) (fmul (num 0.587) gv)) (fmul (num 0.114) bv);
              color = (if fgt (fadd (fadd (fmul (fsub luma (num 128)) (contrast settings)) (num 128))
                                    (fmul (fsub (num (getBayerValue x y)) (num 128))
                                          (ditherAmount settings)))
                              (threshold settings)
                       then (if invert settings then hexToRgb (colorDark settings)
                             else hexToRgb (colorLight settings))
                       else (if invert settings then hexToRgb (colorLight settings)
                             else hexToRgb (colorDark settings)))
          in map (readByte out) [i, i + 1, i + 2, i + 3] = [r color, g color, b color, Some 255])"
proof -
  define i where "i = (y * pw + x) * 4"
  from assms(1,2) have out: "out = processPixels settings pw ph data"
    using processFrame_DrawImage by fastforce
  have inb: "i + 3 < length data"
    unfolding i_def using assms(3-5) by (rule in_buffer)
  have px: "pixelAt pw data x y = [Some (data ! i), Some (data ! (i + 1)), Some (data ! (i + 2)),
              Some (data ! (i + 3))]"
    unfolding pixelAt_def Let_def i_def [symmetric] using inb by (simp add: readByte_def)
  have po: "pixelAt pw out x y = map (readByte out) [i, i + 1, i + 2, i + 3]"
    unfolding pixelAt_def Let_def i_def [symmetric] ..
  have "pixelAt pw out x y =
        shaded settings (effectiveDark settings) (effectiveLight settings) x y (pixelAt pw data x y)"
    unfolding out using assms(3-5) by (rule processPixels_pixelAt)
  then have "map (readByte out) [i, i + 1, i + 2, i + 3] =
        shaded settings (effectiveDark settings) (effectiveLight settings) x y
          [Some (data ! i), Some (data ! (i + 1)), Some (data ! (i + 2)), Some (data ! (i + 3))]"
    unfolding po px .
  then have "map (readByte out) [i, i + 1, i + 2, i + 3] =
     (let color = (if isLight settings x y (Some (data ! i)) (Some (data ! (i + 1)))
                        (Some (data ! (i + 2)))
                   then effectiveLight settings else effectiveDark settings)
      in [r color, g color, b color, Some 255])"
    unfolding shaded_palette by simp
  then show ?thesis
    unfolding i_def [symmetric] Let_def isLight_Some effectiveDark_def effectiveLight_def
    by (simp split: if_splits)
qed

text \<open>
  The theorem at the first pixel of \<open>roundingPage\<close>, \<open>(209, 117, 95)\<close> at \<open>(0, 0)\<close>, with
  contrast 1, threshold 110 and dither amount 0.25. In exact arithmetic the left-hand
  side of the comparison is 110 and the pixel would be dark; the code, which rounds every
  operation, gets a Number above 110 and stores the light colour.
\<close>

lemma rounding_pass:
  "processFrame exampleImage (DEFAULT_SETTINGS\<lparr>contrast := num 1\<rparr>) roundingPage =
     \<lparr>resized = None,
      drawn = [ImageSmoothingEnabled False, DrawImage [230, 224, 212, 255, 26, 26, 20, 255] 2 1 12 6],
      scheduled = False, thrown = False\<rparr>"
  by (simp add: example_defs roundingPage_def pass_defs pixel_defs)

lemma rounding_decides:
  "((0.299 * 209 + 0.587 * 117 + 0.114 * 95 - 128) * 1 + 128) + (0 - 128) * 0.25 = (110 :: real)
   \<and> fadd (fadd (fmul (fsub (fadd (fadd (fmul (num 0.299) (num 209)) (fmul (num 0.587) (num 117)))
                                  (fmul (num 0.114) (num 95)))
                            (num 128))
                      (num 1))
                (num 128))
          (fmul (fsub (num 0) (num 128)) (num 0.25)) =
     Finite (110 + 1 / 2 ^ 45)"
  by (simp add: num_defs)

theorem processFrame_pixel_witness:
  "DrawImage [230, 224, 212, 255, 26, 26, 20, 255] 2 1 12 6
     \<in> set (drawn (processFrame exampleImage (DEFAULT_SETTINGS\<lparr>contrast := num 1\<rparr>) roundingPage))
   \<and> readPixels roundingPage 2 1 = Some [209, 117, 95, 7, 10, 10, 10, 8]
   \<and> length [209, 117, 95, 7, 10, 10, 10, 8 :: nat] = 2 * 1 * 4
   \<and> (0 :: nat) < 2 \<and> (0 :: nat) < 1
   \<and> map (readByte [230, 224, 212, 255, 26, 26, 20, 255]) [0, 1, 2, 3] =
       [r (hexToRgb ''#e6e0d4''), g (hexToRgb ''#e6e0d4''), b (hexToRgb ''#e6e0d4''), Some 255]"
proof -
  have h1: "DrawImage [230, 224, 212, 255, 26, 26, 20, 255] 2 1 12 6
     \<in> set (drawn (processFrame exampleImage (DEFAULT_SETTINGS\<lparr>contrast := num 1\<rparr>) roundingPage))"
    by (simp add: rounding_pass)
  have h2: "readPixels roundingPage 2 1 = Some [209, 117, 95, 7, 10, 10, 10, 8]"
    by (simp add: roundingPage_def)
  have h3: "length [209, 117, 95, 7, 10, 10, 10, 8 :: nat] = 2 * 1 * 4" by simp
  have h4: "(0 :: nat) < 2" and h5: "(0 :: nat) < 1" by simp_all
  from processFrame_pixel [OF h1 h2 h3 h4 h5]
  have "map (readByte [230, 224, 212, 255, 26, 26, 20, 255]) [0, 1, 2, 3] =
       [r (hexToRgb ''#e6e0d4''), g (hexToRgb ''#e6e0d4''), b (hexToRgb ''#e6e0d4''), Some 255]"
    by (simp add: Let_def DEFAULT_SETTINGS_def getBayerValue_def bayerMatrix4x4_def num_defs
        readByte_def hexToRgb_def hexExec_def hexClass_def parseInt16_def digit16_def)
  with h1 h2 show ?thesis by simp
qed

subsection \<open>Invert\<close>

text \<open>
The loops depend on the settings through \<open>isLight\<close> and the two colours only.
\<close>

lemma processPixel_cong:
  assumes "\<And>x y rv gv bv. isLight s1 x y rv gv bv = isLight s2 x y rv gv bv"
  shows "processPixel s1 dark light procW y x data = processPixel s2 dark light procW y x data"
  by (simp add: processPixel_def assms)

lemma columnLoop_cong:
  assumes "\<And>x y rv gv bv. isLight s1 x y rv gv bv = isLight s2 x y rv gv bv"
  shows "columnLoop s1 dark light procW y x data = columnLoop s2 dark light procW y x data"
proof (induction "procW - x" arbitrary: x data)
  case 0
  then show ?case by (subst (1 2) columnLoop.simps) simp
next
  case (Suc n)
  then have "n = procW - (x + 1)" and "x < procW" by simp_all
  with Suc.hyps(1) show ?case
    by (subst (1 2) columnLoop.simps) (simp add: processPixel_cong [OF assms])
qed

lemma rowLoop_cong:
  assumes "\<And>x y rv gv bv. isLight s1 x y rv gv bv = isLight s2 x y rv gv bv"
  shows "rowLoop s1 dark light procW procH y data = rowLoop s2 dark light procW procH y data"
proof (induction "procH - y" arbitrary: y data)
  case 0
  then show ?case by (subst (1 2) rowLoop.simps) simp
next
  case (Suc n)
  then have "n = procH - (y + 1)" and "y < procH" by simp_all
  with Suc.hyps(1) show ?case
    by (subst (1 2) rowLoop.simps) (simp add: columnLoop_cong [OF assms])
qed

lemma isLight_invert [simp]: "isLight (settings\<lparr>invert := v\<rparr>) = isLight settings"
  by (intro ext) (simp add: isLight_alt)

lemma isLight_colorDark [simp]: "isLight (settings\<lparr>colorDark := c\<rparr>) = isLight settings"
  by (intro ext) (simp add: isLight_alt)

lemma isLight_colorLight [simp]: "isLight (settings\<lparr>colorLight := c\<rparr>) = isLight settings"
  by (intro ext) (simp add: isLight_alt)

lemma processPixels_invert:
  "processPixels (settings\<lparr>invert := True\<rparr>) procW procH data =
   processPixels (settings\<lparr>invert := False, colorDark := colorLight settings,
                            colorLight := colorDark settings\<rparr>) procW procH data"
  unfolding processPixels_def Let_def
  by (simp add: effectiveDark_def effectiveLight_def rowLoop_cong [of "settings\<lparr>invert := True\<rparr>" "settings\<lparr>invert := False, colorDark := colorLight settings,
                            colorLight := colorDark settings\<rparr>"])

lemma classification_invert:
  "classification (settings\<lparr>invert := v\<rparr>) procW procH data = classification settings procW procH data"
  by (simp add: classification_def)

lemma pipeline_cong:
  assumes "procW_of s1 = procW_of s2" "procH_of s1 = procH_of s2"
    "gridOverlay s1 = gridOverlay s2" "processPixels s1 = processPixels s2"
  shows "pipeline file s1 page container sourceW sourceH =
         pipeline file s2 page container sourceW sourceH"
  unfolding pipeline_def assms ..

lemma pipeline_invert:
  "pipeline file (settings\<lparr>invert := True\<rparr>) page container sourceW sourceH =
   pipeline file (settings\<lparr>invert := False, colorDark := colorLight settings,
                            colorLight := colorDark settings\<rparr>) page container sourceW sourceH"
proof (rule pipeline_cong)
  show "processPixels (settings\<lparr>invert := True\<rparr>) =
        processPixels (settings\<lparr>invert := False, colorDark := colorLight settings,
                            colorLight := colorDark settings\<rparr>)"
    by (intro ext) (rule processPixels_invert)
qed (simp_all add: procW_of_def procH_of_def gridOverlay_def fun_eq_iff)

lemma invert_pixels:
  assumes "length data = procW * procH * 4" "x < procW" "y < procH"
  shows "pixelAt procW (processPixels (settings\<lparr>invert := False\<rparr>) procW procH data) x y =
           (let color = (if classification settings procW procH data ! (y * procW + x)
                         then hexToRgb (colorLight settings) else hexToRgb (colorDark settings))
            in [r color, g color, b color, Some 255])
       \<and> pixelAt procW (processPixels (settings\<lparr>invert := True\<rparr>) procW procH data) x y =
           (let color = (if classification settings procW procH data ! (y * procW + x)
                         then hexToRgb (colorDark settings) else hexToRgb (colorLight settings))
            in [r color, g color, b color, Some 255])"
  unfolding processPixels_classified [OF assms] classification_invert
  by (simp add: effectiveDark_def effectiveLight_def)

text \<open>
  Claim C5. A pass with \<open>invert\<close> set is the pass with \<open>invert\<close> unset and \<open>colorDark\<close>
  and \<open>colorLight\<close> exchanged, all else the same. The classification of the pixels as
  light or dark is the same with and without \<open>invert\<close>. Pixel by pixel: where the pass
  without \<open>invert\<close> stores \<open>colorLight\<close>, the pass with \<open>invert\<close> stores \<open>colorDark\<close>,
  and where the first stores \<open>colorDark\<close>, the second stores \<open>colorLight\<close>.
\<close>

theorem invert_symmetry:
  "processFrame file (settings\<lparr>invert := True\<rparr>) page =
     processFrame file (settings\<lparr>invert := False, colorDark := colorLight settings,
                                 colorLight := colorDark settings\<rparr>) page
   \<and> processPixels (settings\<lparr>invert := True\<rparr>) procW procH data =
     processPixels (settings\<lparr>invert := False, colorDark := colorLight settings,
                              colorLight := colorDark settings\<rparr>) procW procH data
   \<and> classification (settings\<lparr>invert := True\<rparr>) procW procH data =
     classification (settings\<lparr>invert := False\<rparr>) procW procH data
   \<and> (length data = procW * procH * 4 \<and> x < procW \<and> y < procH \<longrightarrow>
        pixelAt procW (processPixels (settings\<lparr>invert := False\<rparr>) procW procH data) x y =
          (let color = (if classification settings procW procH data ! (y * procW + x)
                        then hexToRgb (colorLight settings) else hexToRgb (colorDark settings))
           in [r color, g color, b color, Some 255])
        \<and> pixelAt procW (processPixels (settings\<lparr>invert := True\<rparr>) procW procH data) x y =
          (let color = (if classification settings procW procH data ! (y * procW + x)
                        then hexToRgb (colorDark settings) else hexToRgb (colorLight settings))
           in [r color, g color, b color, Some 255]))"
proof -
  have pass: "processFrame file (settings\<lparr>invert := True\<rparr>) page =
     processFrame file (settings\<lparr>invert := False, colorDark := colorLight settings,
                                 colorLight := colorDark settings\<rparr>) page"
    unfolding processFrame_def pipeline_invert ..
  have cls: "classification (settings\<lparr>invert := True\<rparr>) procW procH data =
     classification (settings\<lparr>invert := False\<rparr>) procW procH data"
    unfolding classification_invert ..
  from pass processPixels_invert cls invert_pixels show ?thesis by blast
qed

text \<open>
The theorem on the concrete page: the two colours change places, the classification stays.
\<close>

theorem invert_symmetry_witness:
  "processFrame exampleImage (DEFAULT_SETTINGS\<lparr>invert := True\<rparr>) examplePage =
     \<lparr>resized = None,
      drawn = [ImageSmoothingEnabled False, DrawImage [26, 26, 20, 255, 230, 224, 212, 255] 2 1 12 6],
      scheduled = False, thrown = False\<rparr>
   \<and> length [200, 200, 200, 7, 10, 10, 10, 8 :: nat] = 2 * 1 * 4 \<and> (1 :: nat) < 2 \<and> (0 :: nat) < 1
   \<and> classification DEFAULT_SETTINGS 2 1 [200, 200, 200, 7, 10, 10, 10, 8] = [True, False]
   \<and> pixelAt 2 (processPixels (DEFAULT_SETTINGS\<lparr>invert := False\<rparr>) 2 1
                  [200, 200, 200, 7, 10, 10, 10, 8]) 1 0 =
       [Some 26, Some 26, Some 20, Some 255]
   \<and> pixelAt 2 (processPixels (DEFAULT_SETTINGS\<lparr>invert := True\<rparr>) 2 1
                  [200, 200, 200, 7, 10, 10, 10, 8]) 1 0 =
       [Some 230, Some 224, Some 212, Some 255]"
proof -
  have sw: "processFrame exampleImage
      (DEFAULT_SETTINGS\<lparr>invert := False, colorDark := colorLight DEFAULT_SETTINGS,
                         colorLight := colorDark DEFAULT_SETTINGS\<rparr>) examplePage =
     \<lparr>resized = None,
      drawn = [ImageSmoothingEnabled False, DrawImage [26, 26, 20, 255, 230, 224, 212, 255] 2 1 12 6],
      scheduled = False, thrown = False\<rparr>"
    by (simp add: example_defs pass_defs pixel_defs)
  have cl: "classification DEFAULT_SETTINGS 2 1 [200, 200, 200, 7, 10, 10, 10, 8] = [True, False]"
    by (simp add: classification_def upt_rec DEFAULT_SETTINGS_def isLight_def
        readByte_def getBayerValue_def bayerMatrix4x4_def num_defs)
  have colours: "hexToRgb (colorDark DEFAULT_SETTINGS) = \<lparr>r = Some 26, g = Some 26, b = Some 20\<rparr>"
    "hexToRgb (colorLight DEFAULT_SETTINGS) = \<lparr>r = Some 230, g = Some 224, b = Some 212\<rparr>"
    by (simp_all add: DEFAULT_SETTINGS_def hexToRgb_def hexExec_def hexClass_def parseInt16_def
        digit16_def)
  note inst = invert_symmetry [of exampleImage DEFAULT_SETTINGS examplePage 2 1
      "[200, 200, 200, 7, 10, 10, 10, 8]" 1 0]
  have pass: "processFrame exampleImage (DEFAULT_SETTINGS\<lparr>invert := True\<rparr>) examplePage =
     \<lparr>resized = None,
      drawn = [ImageSmoothingEnabled False, DrawImage [26, 26, 20, 255, 230, 224, 212, 255] 2 1 12 6],
      scheduled = False, thrown = False\<rparr>"
    using inst [THEN conjunct1] sw by simp
  have px: "pixelAt 2 (processPixels (DEFAULT_SETTINGS\<lparr>invert := False\<rparr>) 2 1
                  [200, 200, 200, 7, 10, 10, 10, 8]) 1 0 =
       [Some 26, Some 26, Some 20, Some 255]
   \<and> pixelAt 2 (processPixels (DEFAULT_SETTINGS\<lparr>invert := True\<rparr>) 2 1
                  [200, 200, 200, 7, 10, 10, 10, 8]) 1 0 =
       [Some 230, Some 224, Some 212, Some 255]"
    using inst [THEN conjunct2, THEN conjunct2, THEN conjunct2] cl colours by simp
  from pass cl px show ?thesis by simp
qed

subsection \<open>Threshold\<close>

lemma count_mono:
  assumes "\<And>x y. f x y \<Longrightarrow> h x y"
  shows "length (filter (\<lambda>l. l) (concat (map (\<lambda>y. map (\<lambda>x. f x y) xs) ys))) \<le>
         length (filter (\<lambda>l. l) (concat (map (\<lambda>y. map (\<lambda>x. h x y) xs) ys)))"
proof (induction ys)
  case Nil
  show ?case by simp
next
  case (Cons y ys)
  have "length (filter (\<lambda>l. l) (map (\<lambda>x. f x y) xs)) \<le> length (filter (\<lambda>l. l) (map (\<lambda>x. h x y) xs))"
    by (induction xs) (auto dest: assms)
  with Cons show ?case by simp
qed

lemma fgt_fle_trans: "fle t1 t2 \<Longrightarrow> fgt v t2 \<Longrightarrow> fgt v t1"
  by (cases t1; cases t2; cases v) simp_all

lemma isLight_threshold_mono:
  assumes "fle t1 t2" "isLight (settings\<lparr>threshold := t2\<rparr>) x y rv gv bv"
  shows "isLight (settings\<lparr>threshold := t1\<rparr>) x y rv gv bv"
  using assms by (auto simp: isLight_alt dest: fgt_fle_trans)

text \<open>
  Claim C6. For two settings that differ in \<open>threshold\<close> only, \<open>t1 <= t2\<close> as the code
  compares Numbers, and the same frame, the number of pixels classified light under \<open>t2\<close>
  is at most the number under \<open>t1\<close>.
\<close>

theorem threshold_monotone:
  assumes "fle t1 t2"
  shows "lightCount (settings\<lparr>threshold := t2\<rparr>) procW procH data \<le>
         lightCount (settings\<lparr>threshold := t1\<rparr>) procW procH data"
  unfolding lightCount_def classification_def Let_def
  by (rule count_mono) (rule isLight_threshold_mono [OF assms])

text \<open>
The theorem on the two pixels of the concrete page, for the thresholds 110 and 200.
\<close>

theorem threshold_monotone_witness:
  "fle (num 110) (num 200)
   \<and> lightCount (DEFAULT_SETTINGS\<lparr>threshold := num 200\<rparr>) 2 1 [200, 200, 200, 7, 10, 10, 10, 8] = 0
   \<and> lightCount (DEFAULT_SETTINGS\<lparr>threshold := num 110\<rparr>) 2 1 [200, 200, 200, 7, 10, 10, 10, 8] = 1
   \<and> lightCount (DEFAULT_SETTINGS\<lparr>threshold := num 200\<rparr>) 2 1 [200, 200, 200, 7, 10, 10, 10, 8]
       \<le> lightCount (DEFAULT_SETTINGS\<lparr>threshold := num 110\<rparr>) 2 1 [200, 200, 200, 7, 10, 10, 10, 8]"
proof -
  have h: "fle (num 110) (num 200)" by (simp add: num_defs)
  have c: "lightCount (DEFAULT_SETTINGS\<lparr>threshold := num 200\<rparr>) 2 1 [200, 200, 200, 7, 10, 10, 10, 8] = 0"
     "lightCount (DEFAULT_SETTINGS\<lparr>threshold := num 110\<rparr>) 2 1 [200, 200, 200, 7, 10, 10, 10, 8] = 1"
    by (simp_all add: lightCount_def classification_def upt_rec DEFAULT_SETTINGS_def isLight_def
        readByte_def getBayerValue_def bayerMatrix4x4_def num_defs)
  from threshold_monotone [OF h, of DEFAULT_SETTINGS 2 1 "[200, 200, 200, 7, 10, 10, 10, 8]"] h c
  show ?thesis by simp
qed

subsection \<open>The size of the processing surface\<close>




subsection \<open>Scanlines\<close>














subsection \<open>A pass that cannot get its processing surface\<close>

lemma offscreen_failure_stops:
  assumes "selectSource file page = Source True sourceW sourceH" "0 < sourceW" "0 < sourceH"
    and "\<not> offscreenContext page"
  shows "drawn (processFrame file settings page) = []
         \<and> \<not> scheduled (processFrame file settings page)
         \<and> \<not> thrown (processFrame file settings page)"
  using assms by (simp add: processFrame_def pipeline_cases Let_def returned_def split: option.splits)

text \<open>
  Claim C4 says that a pass on a video that cannot get its processing surface or its
  pixels gives up silently and that the next pass is still scheduled. On the concrete
  page with a video, a pass that gets no offscreen context returns without a call of
  \<open>requestAnimationFrame\<close>, and a pass whose \<open>getImageData\<close> throws ends in that
  exception, again with no next pass scheduled.
\<close>

theorem offscreen_failure_not_rescheduled:
  "processFrame exampleVideo DEFAULT_SETTINGS (examplePage\<lparr>offscreenContext := False\<rparr>) =
     \<lparr>resized = None, drawn = [], scheduled = False, thrown = False\<rparr>
   \<and> processFrame exampleVideo DEFAULT_SETTINGS (examplePage\<lparr>readPixels := (\<lambda>w h. None)\<rparr>) =
     \<lparr>resized = None, drawn = [], scheduled = False, thrown = True\<rparr>"
  by (simp add: example_defs pass_defs)

text \<open>
What the evaluation means for the loop: the file is a video, and no pass follows.
\<close>

theorem offscreen_failure_not_rescheduled_witness:
  "typeOf exampleVideo = Some Video
   \<and> \<not> offscreenContext (examplePage\<lparr>offscreenContext := False\<rparr>)
   \<and> \<not> scheduled (processFrame exampleVideo DEFAULT_SETTINGS
                     (examplePage\<lparr>offscreenContext := False\<rparr>))
   \<and> readPixels (examplePage\<lparr>readPixels := (\<lambda>w h. None)\<rparr>) 2 1 = None
   \<and> thrown (processFrame exampleVideo DEFAULT_SETTINGS
                (examplePage\<lparr>readPixels := (\<lambda>w h. None)\<rparr>))
   \<and> \<not> scheduled (processFrame exampleVideo DEFAULT_SETTINGS
                     (examplePage\<lparr>readPixels := (\<lambda>w h. None)\<rparr>))"
  using offscreen_failure_not_rescheduled
  by (simp add: exampleVideo_def typeOf_def)

subsection \<open>A source without dimensions\<close>





subsection \<open>The frame loop\<close>

text \<open>
  The invariant \<open>liveRequests\<close> holds at the start, and every event keeps it: the cleanup
  cancels the one request that can be pending, whose handle is in \<open>requestRef.current\<close>.
\<close>

lemma liveRequests_empty: "frameRequests v = [] \<Longrightarrow> liveRequests v"
  by (simp add: liveRequests_def)

lemma requestAnimationFrame_live:
  assumes "frameRequests v = []" "mounted v" "rendered v = callback"
  shows "liveRequests (requestAnimationFrame callback v)"
  using assms by (simp add: liveRequests_def requestAnimationFrame_def Let_def)

lemma runPass_live:
  assumes "frameRequests v = []" "mounted v" "rendered v = callback"
  shows "liveRequests (runPass callback page v)"
  using assms by (simp add: runPass_def requestAnimationFrame_live liveRequests_empty)

lemma loopEffect_live:
  assumes "frameRequests v = []" "mounted v" "rendered v = callback"
  shows "liveRequests (loopEffect callback page v)"
  using assms by (simp add: loopEffect_def requestAnimationFrame_live runPass_live)

lemma loopCleanup_fields [simp]:
  "mounted (loopCleanup v) = mounted v" "rendered (loopCleanup v) = rendered v"
  "requestRef (loopCleanup v) = requestRef v" "lastHandle (loopCleanup v) = lastHandle v"
  by (simp_all add: loopCleanup_def cancelAnimationFrame_def split: option.splits)

lemma one_handle:
  assumes "liveRequests v" "request \<in> set (frameRequests v)"
  shows "filter (\<lambda>q. fst q \<noteq> fst request) (frameRequests v) = []"
proof -
  have "fst q = fst request" if "q \<in> set (frameRequests v)" for q
  proof -
    from assms(1) that have "requestRef v = Some (fst q)" by (simp add: liveRequests_def)
    moreover from assms have "requestRef v = Some (fst request)" by (simp add: liveRequests_def)
    ultimately show ?thesis by simp
  qed
  then show ?thesis by (simp add: filter_empty_conv)
qed

lemma loopCleanup_cancels:
  assumes "liveRequests v"
  shows "frameRequests (loopCleanup v) = []"
proof (cases "frameRequests v")
  case Nil
  then show ?thesis
    by (simp add: loopCleanup_def cancelAnimationFrame_def split: option.splits)
next
  case (Cons request rest)
  then have mem: "request \<in> set (frameRequests v)" by simp
  with assms have ref: "requestRef v = Some (fst request)" and pos: "0 < fst request"
    by (auto simp: liveRequests_def)
  from one_handle [OF assms mem] show ?thesis
    using ref pos by (simp add: loopCleanup_def cancelAnimationFrame_def)
qed

lemma unmounted_no_requests:
  assumes "liveRequests v" "\<not> mounted v"
  shows "frameRequests v = []"
  using assms by (cases "frameRequests v") (auto simp: liveRequests_def)

lemma step_live:
  assumes "liveRequests v" "step e v = Some v'"
  shows "liveRequests v'"
proof (cases e)
  case (Mount fl settings page)
  with assms(2) have nm: "\<not> mounted v"
    and v': "v' = loopEffect (fl, settings) page
                   (v\<lparr>mounted := True, rendered := (fl, settings), requestRef := None\<rparr>)"
    by (auto split: if_splits)
  from unmounted_no_requests [OF assms(1) nm] show ?thesis
    unfolding v' by (intro loopEffect_live) simp_all
next
  case (Update fl settings page)
  with assms(2) have m: "mounted v"
    and v': "v' = loopEffect (fl, settings) page ((loopCleanup v)\<lparr>rendered := (fl, settings)\<rparr>)"
    by (auto split: if_splits)
  from loopCleanup_cancels [OF assms(1)] m show ?thesis
    unfolding v' by (intro loopEffect_live) simp_all
next
  case Unmount
  with assms(2) have v': "v' = (loopCleanup v)\<lparr>mounted := False\<rparr>"
    by (auto split: if_splits)
  from loopCleanup_cancels [OF assms(1)] show ?thesis
    unfolding v' by (intro liveRequests_empty) simp
next
  case (Frame handle page)
  with assms(2) obtain callback where look: "map_of (frameRequests v) handle = Some callback"
    and v': "v' = runPass callback page
                  (v\<lparr>frameRequests := filter (\<lambda>request. fst request \<noteq> handle) (frameRequests v)\<rparr>)"
    by (auto split: option.splits)
  from look have mem: "(handle, callback) \<in> set (frameRequests v)" by (rule map_of_SomeD)
  with assms(1) have m: "mounted v" and c: "rendered v = callback"
    by (auto simp: liveRequests_def)
  from one_handle [OF assms(1) mem] m c show ?thesis
    unfolding v' by (intro runPass_live) simp_all
qed

lemma run_live:
  assumes "liveRequests v" "run events v = Some v'"
  shows "liveRequests v'"
  using assms
proof (induction events arbitrary: v)
  case Nil
  then show ?case by simp
next
  case (Cons e es)
  from Cons.prems(2) obtain w where w: "step e v = Some w" and r: "run es w = Some v'"
    by (auto split: option.splits)
  from step_live [OF Cons.prems(1) w] r show ?case by (rule Cons.IH)
qed

lemma rendered_loopEffect [simp]: "rendered (loopEffect callback page v) = rendered v"
  by (simp add: loopEffect_def runPass_def requestAnimationFrame_def Let_def)

lemma step_Update_rendered:
  assumes "step (Update fl settings page) v = Some v'"
  shows "rendered v' = (fl, settings)"
proof -
  from assms have "v' = loopEffect (fl, settings) page ((loopCleanup v)\<lparr>rendered := (fl, settings)\<rparr>)"
    by (cases "mounted v") simp_all
  then show ?thesis by simp
qed

lemma step_Unmount_requests:
  assumes "liveRequests v" "step Unmount v = Some v'"
  shows "frameRequests v' = []"
proof -
  from assms(2) have "v' = (loopCleanup v)\<lparr>mounted := False\<rparr>"
    by (cases "mounted v") simp_all
  with loopCleanup_cancels [OF assms(1)] show ?thesis by simp
qed

text \<open>
  Claim C9. After any sequence of mounts, changes of the file or the settings, unmounts
  and frames, every frame request that the browser still holds belongs to the mounted
  view and calls the \<open>processFrame\<close> of the current file and settings; the cleanup leaves
  no request pending; so after a change of the source every pending request is one of the
  new source, and after an unmount none is pending: no pass of a source that was cleared
  or replaced, and no pass after the unmount, is ever run.
\<close>

theorem no_stale_pass:
  assumes "run events (initialView c) = Some v"
  shows "(\<forall>request \<in> set (frameRequests v). mounted v \<and> snd request = rendered v)
         \<and> frameRequests (loopCleanup v) = []
         \<and> (\<forall>file settings page v'. step (Update file settings page) v = Some v' \<longrightarrow>
               (\<forall>request \<in> set (frameRequests v'). snd request = (file, settings)))
         \<and> (\<forall>v'. step Unmount v = Some v' \<longrightarrow> frameRequests v' = [])"
proof -
  have "liveRequests (initialView c)"
    by (simp add: liveRequests_def initialView_def)
  from run_live [OF this assms] have live: "liveRequests v" .
  have cur: "\<forall>request \<in> set (frameRequests v). mounted v \<and> snd request = rendered v"
    using live by (simp add: liveRequests_def)
  have upd: "\<forall>fl settings page v'. step (Update fl settings page) v = Some v' \<longrightarrow>
               (\<forall>request \<in> set (frameRequests v'). snd request = (fl, settings))"
  proof (intro allI impI ballI)
    fix fl settings page v' request
    assume s: "step (Update fl settings page) v = Some v'"
      and mem: "request \<in> set (frameRequests v')"
    from step_live [OF live s] mem have "snd request = rendered v'"
      by (simp add: liveRequests_def)
    with step_Update_rendered [OF s] show "snd request = (fl, settings)" by simp
  qed
  have unm: "\<forall>v'. step Unmount v = Some v' \<longrightarrow> frameRequests v' = []"
    using step_Unmount_requests [OF live] by blast
  from cur loopCleanup_cancels [OF live] upd unm show ?thesis by blast
qed

text \<open>
  The theorem after a mount with a video and one frame: one request is pending; a change
  of the settings replaces it, and an unmount cancels it.
\<close>

theorem no_stale_pass_witness:
  "run [Mount exampleVideo DEFAULT_SETTINGS examplePage, Frame 1 examplePage]
       (initialView (None, DEFAULT_SETTINGS)) =
     Some \<lparr>mounted = True, rendered = (exampleVideo, DEFAULT_SETTINGS), requestRef = Some 2,
           frameRequests = [(2, (exampleVideo, DEFAULT_SETTINGS))], lastHandle = 2\<rparr>
   \<and> frameRequests (loopCleanup
        \<lparr>mounted = True, rendered = (exampleVideo, DEFAULT_SETTINGS), requestRef = Some 2,
         frameRequests = [(2, (exampleVideo, DEFAULT_SETTINGS))], lastHandle = 2\<rparr>) = []
   \<and> step (Update exampleVideo (DEFAULT_SETTINGS\<lparr>threshold := num 140\<rparr>) examplePage)
        \<lparr>mounted = True, rendered = (exampleVideo, DEFAULT_SETTINGS), requestRef = Some 2,
         frameRequests = [(2, (exampleVideo, DEFAULT_SETTINGS))], lastHandle = 2\<rparr> =
     Some \<lparr>mounted = True, rendered = (exampleVideo, DEFAULT_SETTINGS\<lparr>threshold := num 140\<rparr>),
           requestRef = Some 3,
           frameRequests = [(3, (exampleVideo, DEFAULT_SETTINGS\<lparr>threshold := num 140\<rparr>))],
           lastHandle = 3\<rparr>
   \<and> step Unmount
        \<lparr>mounted = True, rendered = (exampleVideo, DEFAULT_SETTINGS), requestRef = Some 2,
         frameRequests = [(2, (exampleVideo, DEFAULT_SETTINGS))], lastHandle = 2\<rparr> =
     Some \<lparr>mounted = False, rendered = (exampleVideo, DEFAULT_SETTINGS), requestRef = Some 2,
           frameRequests = [], lastHandle = 2\<rparr>"
proof -
  have sched: "scheduled (processFrame exampleVideo DEFAULT_SETTINGS examplePage)"
    by (simp add: example_defs pass_defs)
  have vid: "typeOf exampleVideo = Some Video"
    by (simp add: exampleVideo_def typeOf_def)
  have r: "run [Mount exampleVideo DEFAULT_SETTINGS examplePage, Frame 1 examplePage]
       (initialView (None, DEFAULT_SETTINGS)) =
     Some \<lparr>mounted = True, rendered = (exampleVideo, DEFAULT_SETTINGS), requestRef = Some 2,
           frameRequests = [(2, (exampleVideo, DEFAULT_SETTINGS))], lastHandle = 2\<rparr>"
    by (simp add: initialView_def loopEffect_def runPass_def requestAnimationFrame_def vid sched)
  have u: "step (Update exampleVideo (DEFAULT_SETTINGS\<lparr>threshold := num 140\<rparr>) examplePage)
        \<lparr>mounted = True, rendered = (exampleVideo, DEFAULT_SETTINGS), requestRef = Some 2,
         frameRequests = [(2, (exampleVideo, DEFAULT_SETTINGS))], lastHandle = 2\<rparr> =
     Some \<lparr>mounted = True, rendered = (exampleVideo, DEFAULT_SETTINGS\<lparr>threshold := num 140\<rparr>),
           requestRef = Some 3,
           frameRequests = [(3, (exampleVideo, DEFAULT_SETTINGS\<lparr>threshold := num 140\<rparr>))],
           lastHandle = 3\<rparr>"
    by (simp add: loopEffect_def loopCleanup_def cancelAnimationFrame_def requestAnimationFrame_def vid)
  have m: "step Unmount
        \<lparr>mounted = True, rendered = (exampleVideo, DEFAULT_SETTINGS), requestRef = Some 2,
         frameRequests = [(2, (exampleVideo, DEFAULT_SETTINGS))], lastHandle = 2\<rparr> =
     Some \<lparr>mounted = False, rendered = (exampleVideo, DEFAULT_SETTINGS), requestRef = Some 2,
           frameRequests = [], lastHandle = 2\<rparr>"
    by (simp add: loopCleanup_def cancelAnimationFrame_def)
  from no_stale_pass [OF r] r u m show ?thesis by simp
qed

end
